theory Spec2Isabelle
  imports Complex_Main "HOL-Library.Sublist"
begin

section \<open>The layout-to-PDF converter of \<^verbatim>\<open>src/main.cpp\<close>\<close>

text \<open>
  The converter reads a line-oriented layout file, parses it into pages of styled lines
  (\<^verbatim>\<open>ParseLayoutFile\<close>), lays every page out as a PDF content stream
  (\<^verbatim>\<open>BuildPageContent\<close>) and assembles the PDF objects, the cross-reference table and the
  trailer (\<^verbatim>\<open>main\<close>).

  Conventions of the embedding:
  \<^item> \<^verbatim>\<open>std::string\<close> is \<open>string\<close>; a \<open>char\<close> is one byte.
  \<^item> The \<^verbatim>\<open>int\<close> values that the input can drive out of range wrap as on the
    platform: the result of \<^verbatim>\<open>atoi\<close>, the sum \<^verbatim>\<open>fontSize + 4\<close> and the length of a
    content stream converted to \<^verbatim>\<open>int\<close>. The number of pages, the object numbers and the
    offsets are \<open>int\<close> and \<open>nat\<close> without a width (they leave the range of \<^verbatim>\<open>int\<close> only
    beyond \<open>2^30\<close> pages).
  \<^item> \<^verbatim>\<open>float\<close> is a type parameter \<open>'f\<close>: the arithmetic, the comparison and the
    stream formatting of floats are taken from a record of operations, so every theorem
    holds for whatever the platform computes. \<open>exact_float\<close> instantiates the record with
    exact rational arithmetic.
  \<^item> The functions of the C and C++ libraries that the program calls (\<^verbatim>\<open>isspace\<close>,
    \<^verbatim>\<open>tolower\<close>, \<^verbatim>\<open>atoi\<close>, \<^verbatim>\<open>std::getline\<close>, \<^verbatim>\<open>operator<<\<close>) are modelled in the
    "C" locale, in which the program runs (it never calls \<^verbatim>\<open>setlocale\<close>).
\<close>

subsection \<open>Library functions\<close>

definition isspace :: "char \<Rightarrow> bool" where
  "isspace c \<longleftrightarrow> c = CHR 0x20 \<or> c = CHR 0x09 \<or> c = CHR 0x0A \<or> c = CHR 0x0B
     \<or> c = CHR 0x0C \<or> c = CHR 0x0D"

definition tolower :: "char \<Rightarrow> char" where
  "tolower c = (let n = (of_char c :: nat)
                in if 65 \<le> n \<and> n \<le> 90 then char_of (n + 32) else c)"

definition isdigit :: "char \<Rightarrow> bool" where
  "isdigit c \<longleftrightarrow> 48 \<le> (of_char c :: nat) \<and> (of_char c :: nat) \<le> 57"

definition digit_val :: "char \<Rightarrow> int" where
  "digit_val c = int (of_char c) - 48"

fun atoi_digits :: "int \<Rightarrow> string \<Rightarrow> int" where
  "atoi_digits acc [] = acc"
| "atoi_digits acc (c # cs) =
     (if isdigit c then atoi_digits (acc * 10 + digit_val c) cs else acc)"

text \<open>
  The number that a decimal text denotes: white space is skipped, then an optional sign
  and the longest run of decimal digits are read; no digits give 0.
\<close>

definition decimal_value :: "string \<Rightarrow> int" where
  "decimal_value s =
     (case dropWhile isspace s of
        [] \<Rightarrow> 0
      | c # cs \<Rightarrow>
          if c = CHR ''-'' then - atoi_digits 0 cs
          else if c = CHR ''+'' then atoi_digits 0 cs
          else atoi_digits 0 (c # cs))"

text \<open>
  \<^verbatim>\<open>strtol\<close> in base 10, with a \<^verbatim>\<open>long\<close> of 64 bits: a value out of range is replaced by
  the nearest bound.
\<close>

definition strtol :: "string \<Rightarrow> int" where
  "strtol s = max (- (2 ^ 63)) (min (2 ^ 63 - 1) (decimal_value s))"

text \<open>
  The conversion of an integer to \<^verbatim>\<open>int\<close>, and \<^verbatim>\<open>+\<close> on two \<^verbatim>\<open>int\<close>s: the value
  modulo \<open>2^32\<close> in the range from \<open>-2^31\<close> to \<open>2^31 - 1\<close>, as the platform computes it
  (the C++ standard leaves the overflow of the sum undefined).
\<close>

definition to_int :: "int \<Rightarrow> int" where
  "to_int n = (n + 2 ^ 31) mod 2 ^ 32 - 2 ^ 31"

definition add_int :: "int \<Rightarrow> int \<Rightarrow> int" where
  "add_int a b = to_int (a + b)"

text \<open>
  \<^verbatim>\<open>atoi\<close> is \<^verbatim>\<open>strtol\<close> converted to \<^verbatim>\<open>int\<close>: \<open>2147483648\<close> reads as \<open>-2147483648\<close>
  and \<open>4294967310\<close> as 14 (the C standard leaves the result out of range undefined).
\<close>

definition atoi :: "string \<Rightarrow> int" where
  "atoi s = to_int (strtol s)"

definition digit_char :: "nat \<Rightarrow> char" where
  "digit_char d = char_of (48 + d)"

fun show_nat :: "nat \<Rightarrow> string" where
  "show_nat n =
     (if n < 10 then [digit_char n] else show_nat (n div 10) @ [digit_char (n mod 10)])"

declare show_nat.simps [simp del]

text \<open>\<^verbatim>\<open>operator<<\<close> on an \<^verbatim>\<open>int\<close> or a \<^verbatim>\<open>long\<close>: decimal digits, a minus sign first.\<close>

definition show_int :: "int \<Rightarrow> string" where
  "show_int i = (if i < 0 then CHR ''-'' # show_nat (nat (- i)) else show_nat (nat i))"

text \<open>
  \<^verbatim>\<open>std::setw(w) << std::setfill(c)\<close> before one output: the text is padded on the
  left up to the width \<open>w\<close>, and never cut.
\<close>

definition setw_setfill :: "nat \<Rightarrow> char \<Rightarrow> string \<Rightarrow> string" where
  "setw_setfill w c s = replicate (w - length s) c @ s"

text \<open>\<^verbatim>\<open>s.find(c)\<close> and \<^verbatim>\<open>s.find("//")\<close>; \<open>None\<close> is \<^verbatim>\<open>npos\<close>.\<close>

fun find_char :: "char \<Rightarrow> string \<Rightarrow> nat option" where
  "find_char c [] = None"
| "find_char c (x # xs) = (if x = c then Some 0 else map_option Suc (find_char c xs))"

fun find_slashes :: "string \<Rightarrow> nat option" where
  "find_slashes (x # y # ys) =
     (if x = CHR ''/'' \<and> y = CHR ''/'' then Some 0
      else map_option Suc (find_slashes (y # ys)))"
| "find_slashes _ = None"

text \<open>
  The lines that the loop \<^verbatim>\<open>while (std::getline(in, raw))\<close> sees: the text is cut at
  every line feed, and a last line without a line feed counts when it is not empty.
\<close>

fun getlines :: "string \<Rightarrow> string \<Rightarrow> string list" where
  "getlines cur [] = (if cur = [] then [] else [cur])"
| "getlines cur (c # cs) =
     (if c = CHR 0x0A then cur # getlines [] cs else getlines (cur @ [c]) cs)"

subsection \<open>Helpers: trimming, lowercase, splitting\<close>

definition Trim :: "string \<Rightarrow> string" where
  "Trim s = rev (dropWhile isspace (rev (dropWhile isspace s)))"

definition ToLower :: "string \<Rightarrow> string" where
  "ToLower s = map tolower s"

text \<open>
  \<^verbatim>\<open>SplitByComma\<close>: the loop over the characters, with the parts pushed so far and the
  part being read, then the push after the loop.
\<close>

fun SplitByComma_loop :: "string list \<Rightarrow> string \<Rightarrow> string \<Rightarrow> string list" where
  "SplitByComma_loop parts current [] =
     (if current \<noteq> [] then parts @ [Trim current] else parts)"
| "SplitByComma_loop parts current (c # cs) =
     (if c = CHR '','' then SplitByComma_loop (parts @ [Trim current]) [] cs
      else SplitByComma_loop parts (current @ [c]) cs)"

definition SplitByComma :: "string \<Rightarrow> string list" where
  "SplitByComma s = SplitByComma_loop [] [] s"

text \<open>
  For reference, not in the source: the fields of a string between its commas, untrimmed;
  a string with \<open>n\<close> commas has \<open>n + 1\<close> fields, the last one after the last comma.
\<close>

fun comma_fields :: "string \<Rightarrow> string list" where
  "comma_fields [] = [[]]"
| "comma_fields (c # cs) =
     (if c = CHR '','' then [] # comma_fields cs
      else (c # hd (comma_fields cs)) # tl (comma_fields cs))"

fun EscapePdfString :: "string \<Rightarrow> string" where
  "EscapePdfString [] = []"
| "EscapePdfString (c # cs) =
     (if c = CHR ''('' \<or> c = CHR '')'' \<or> c = CHR 0x5C
      then CHR 0x5C # c # EscapePdfString cs
      else c # EscapePdfString cs)"

subsection \<open>Floats\<close>

record 'f float_ops =
  flit :: "rat \<Rightarrow> 'f"
  fint :: "int \<Rightarrow> 'f"
  fsize :: "nat \<Rightarrow> 'f"
  fadd :: "'f \<Rightarrow> 'f \<Rightarrow> 'f"
  fsub :: "'f \<Rightarrow> 'f \<Rightarrow> 'f"
  fmul :: "'f \<Rightarrow> 'f \<Rightarrow> 'f"
  fdiv :: "'f \<Rightarrow> 'f \<Rightarrow> 'f"
  fless :: "'f \<Rightarrow> 'f \<Rightarrow> bool"
  fshow :: "'f \<Rightarrow> string"

text \<open>
  The instance with exact arithmetic on rationals. It agrees with IEEE single precision
  as long as every value is a multiple of \<open>1/2\<close> below \<open>2^23\<close> in size, which holds for
  every page whose font sizes and text lengths stay below a few millions. \<open>show_float\<close>
  is \<^verbatim>\<open>operator<<\<close> on a \<^verbatim>\<open>float\<close> with the default precision: the format \<^verbatim>\<open>%g\<close> with
  six significant digits.
\<close>

definition round_half_even :: "rat \<Rightarrow> int" where
  "round_half_even q =
     (let f = \<lfloor>q\<rfloor>; d = q - of_int f
      in if d < 1/2 then f else if 1/2 < d then f + 1 else if even f then f else f + 1)"

definition pow10 :: "int \<Rightarrow> rat" where
  "pow10 e = (if 0 \<le> e then 10 ^ nat e else 1 / 10 ^ nat (- e))"

text \<open>The decimal exponent \<open>e\<close> of a positive number \<open>a\<close>: \<open>10^e \<le> a < 10^(e+1)\<close>.\<close>

definition dec_exponent :: "rat \<Rightarrow> int" where
  "dec_exponent a =
     (if 1 \<le> a then int (length (show_nat (nat \<lfloor>a\<rfloor>))) - 1
      else - int (length (takeWhile (\<lambda>k. a * 10 ^ k < 1)
                   [0 ..< Suc (length (show_nat (nat (snd (quotient_of a)))))])))"

definition fraction_digits :: "string \<Rightarrow> string" where
  "fraction_digits ds =
     (let t = rev (dropWhile (\<lambda>c. c = CHR ''0'') (rev ds))
      in if t = [] then [] else CHR ''.'' # t)"

definition show_float :: "rat \<Rightarrow> string" where
  "show_float q =
     (if q = 0 then ''0'' else
      (let a = \<bar>q\<bar>;
           e0 = dec_exponent a;
           m0 = round_half_even (a / pow10 (e0 - 5));
           m = (if m0 = 1000000 then 100000 else m0);
           e = (if m0 = 1000000 then e0 + 1 else e0);
           ds = show_nat (nat m);
           sign = (if q < 0 then ''-'' else [])
       in if e < - 4 \<or> 6 \<le> e then
            sign @ take 1 ds @ fraction_digits (drop 1 ds) @ ''e'' @
            (if e < 0 then ''-'' else ''+'') @ setw_setfill 2 (CHR ''0'') (show_nat (nat \<bar>e\<bar>))
          else if 0 \<le> e then
            sign @ take (nat e + 1) ds @ fraction_digits (drop (nat e + 1) ds)
          else
            sign @ ''0'' @ fraction_digits (replicate (nat (- e) - 1) (CHR ''0'') @ ds)))"

definition exact_float :: "rat float_ops" where
  "exact_float =
     \<lparr>flit = (\<lambda>q. q), fint = rat_of_int, fsize = rat_of_nat,
      fadd = (+), fsub = (-), fmul = (*), fdiv = (/), fless = (<),
      fshow = show_float\<rparr>"

subsection \<open>Layout structs\<close>

datatype TextAlign = ALIGN_LEFT | ALIGN_CENTER | ALIGN_RIGHT

record 'f LineSpec =
  ltext :: string
  fontSize :: int
  r :: 'f
  g :: 'f
  b :: 'f
  align :: TextAlign
  bottomAnchor :: bool

record 'f PageSpec =
  lines :: "'f LineSpec list"

definition ColorFromName :: "'f float_ops \<Rightarrow> string \<Rightarrow> 'f \<times> 'f \<times> 'f" where
  "ColorFromName F name =
     (let n = ToLower (Trim name) in
      if n = ''black'' then (flit F 0, flit F 0, flit F 0)
      else if n = ''white'' then (flit F 1, flit F 1, flit F 1)
      else if n = ''red'' then (flit F 1, flit F 0, flit F 0)
      else if n = ''green'' then (flit F 0, flit F 1, flit F 0)
      else if n = ''blue'' then (flit F 0, flit F 0, flit F 1)
      else if n = ''gray'' \<or> n = ''grey'' then (flit F (1/2), flit F (1/2), flit F (1/2))
      else (flit F 0, flit F 0, flit F 0))"

definition AlignFromName :: "string \<Rightarrow> TextAlign" where
  "AlignFromName name =
     (let n = ToLower (Trim name) in
      if n = ''center'' then ALIGN_CENTER
      else if n = ''right'' then ALIGN_RIGHT
      else ALIGN_LEFT)"

subsection \<open>Parsing the layout file\<close>

text \<open>The local variables of \<^verbatim>\<open>ParseLayoutFile\<close> and its output parameter \<^verbatim>\<open>pages\<close>.\<close>

record 'f parser_state =
  pages :: "'f PageSpec list"
  inPage :: bool
  currentPage :: "'f PageSpec"
  currentFontSize :: int
  currentR :: 'f
  currentG :: 'f
  currentB :: 'f
  currentAlign :: TextAlign
  currentBottomAnchor :: bool

text \<open>The \<^verbatim>\<open>LineSpec ls\<close> that both pushing branches fill from the current style.\<close>

definition style_line :: "'f parser_state \<Rightarrow> string \<Rightarrow> 'f LineSpec" where
  "style_line st t =
     \<lparr>ltext = t, fontSize = currentFontSize st,
      r = currentR st, g = currentG st, b = currentB st,
      align = currentAlign st, bottomAnchor = currentBottomAnchor st\<rparr>"

definition push_line :: "'f parser_state \<Rightarrow> 'f LineSpec \<Rightarrow> 'f parser_state" where
  "push_line st ls = st\<lparr>currentPage := (currentPage st)\<lparr>lines := lines (currentPage st) @ [ls]\<rparr>\<rparr>"

definition set_color :: "'f parser_state \<Rightarrow> 'f \<times> 'f \<times> 'f \<Rightarrow> 'f parser_state" where
  "set_color st c =
     (case c of (cr, cg, cb) \<Rightarrow> st\<lparr>currentR := cr, currentG := cg, currentB := cb\<rparr>)"

text \<open>The block "Reset / update style" of an opening directive (lines 190 to 221).\<close>

definition update_style :: "'f float_ops \<Rightarrow> 'f parser_state \<Rightarrow> string \<Rightarrow> 'f parser_state" where
  "update_style F st params =
     (if params \<noteq> [] then
        (let parts = SplitByComma params;
             st1 = (if length parts \<ge> 1
                    then (let n = atoi (parts ! 0)
                          in st\<lparr>currentFontSize := (if n \<le> 0 then 12 else n)\<rparr>)
                    else st);
             st2 = (if length parts \<ge> 2
                    then set_color st1 (ColorFromName F (parts ! 1))
                    else set_color st1 (ColorFromName F ''black''));
             st3 = (if length parts \<ge> 3
                    then st2\<lparr>currentAlign := AlignFromName (parts ! 2)\<rparr>
                    else st2\<lparr>currentAlign := ALIGN_LEFT\<rparr>)
         in if length parts \<ge> 4
            then st3\<lparr>currentBottomAnchor := (ToLower (Trim (parts ! 3)) = ''bottom'')\<rparr>
            else st3\<lparr>currentBottomAnchor := False\<rparr>)
      else
        (set_color (st\<lparr>currentFontSize := 12\<rparr>) (ColorFromName F ''black''))
          \<lparr>currentAlign := ALIGN_LEFT, currentBottomAnchor := False\<rparr>)"

text \<open>One turn of the loop over the lines of the file (lines 134 to 238).\<close>

definition process_line :: "'f float_ops \<Rightarrow> 'f parser_state \<Rightarrow> string \<Rightarrow> 'f parser_state" where
  "process_line F st raw =
     (let commentPos = find_slashes raw;
          beforeComment = (case commentPos of None \<Rightarrow> raw | Some p \<Rightarrow> take p raw);
          line = Trim beforeComment
      in
      if line = [] then
        (let isPureComment = (commentPos \<noteq> None \<and> Trim beforeComment = [])
         in if inPage st \<and> \<not> isPureComment then push_line st (style_line st [])
            else st)
      else if length line > 0 \<and> line ! 0 = CHR ''['' then
        (if length line > 1 \<and> line ! 1 = CHR ''/'' then
           (if inPage st
            then st\<lparr>pages := pages st @ [currentPage st],
                    currentPage := (currentPage st)\<lparr>lines := []\<rparr>,
                    inPage := False\<rparr>
            else st)
         else
           (case find_char (CHR '']'') line of
              None \<Rightarrow> st
            | Some closePos \<Rightarrow>
                (let params = (if closePos + 1 < length line
                               then Trim (drop (closePos + 1) line) else []);
                     st1 = (if \<not> inPage st
                            then st\<lparr>inPage := True,
                                    currentPage := (currentPage st)\<lparr>lines := []\<rparr>\<rparr>
                            else st)
                 in update_style F st1 params)))
      else if inPage st then push_line st (style_line st line)
      else st)"

text \<open>The loop, and at the end of the input the push of a page that is still open.\<close>

fun parse_lines :: "'f float_ops \<Rightarrow> 'f parser_state \<Rightarrow> string list \<Rightarrow> 'f PageSpec list" where
  "parse_lines F st [] =
     (if inPage st \<and> lines (currentPage st) \<noteq> [] then pages st @ [currentPage st]
      else pages st)"
| "parse_lines F st (raw # rest) = parse_lines F (process_line F st raw) rest"

definition initial_state :: "'f float_ops \<Rightarrow> 'f PageSpec list \<Rightarrow> 'f parser_state" where
  "initial_state F ps =
     \<lparr>pages = ps, inPage = False, currentPage = \<lparr>lines = []\<rparr>,
      currentFontSize = 12,
      currentR = flit F 0, currentG = flit F 0, currentB = flit F 0,
      currentAlign = ALIGN_LEFT, currentBottomAnchor = False\<rparr>"

text \<open>
  \<^verbatim>\<open>ParseLayoutFile\<close>: the file is given by its contents, \<open>None\<close> when it cannot be
  opened; the result is the returned flag, the vector \<^verbatim>\<open>pages\<close> after the call and what
  went to \<^verbatim>\<open>std::cerr\<close>.
\<close>

definition ParseLayoutFile ::
  "'f float_ops \<Rightarrow> string \<Rightarrow> string option \<Rightarrow> 'f PageSpec list
     \<Rightarrow> bool \<times> 'f PageSpec list \<times> string" where
  "ParseLayoutFile F filename file ps =
     (case file of
        None \<Rightarrow> (False, ps, ''Failed to open layout file: '' @ filename @ ''\<newline>'')
      | Some contents \<Rightarrow>
          (True, parse_lines F (initial_state F ps) (getlines [] contents), []))"

subsection \<open>Building the content stream of one page\<close>

record 'f PositionedLine =
  pl_ls :: "'f LineSpec"
  pl_x :: 'f
  pl_y :: 'f

definition pageWidth :: "'f float_ops \<Rightarrow> 'f" where "pageWidth F = flit F 612"
definition leftMargin :: "'f float_ops \<Rightarrow> 'f" where "leftMargin F = flit F 72"
definition rightMargin :: "'f float_ops \<Rightarrow> 'f" where "rightMargin F = flit F 72"
definition topMarginY :: "'f float_ops \<Rightarrow> 'f" where "topMarginY F = flit F 750"
definition bottomMarginY :: "'f float_ops \<Rightarrow> 'f" where "bottomMarginY F = flit F 72"

definition computeX :: "'f float_ops \<Rightarrow> 'f LineSpec \<Rightarrow> 'f \<Rightarrow> 'f" where
  "computeX F ls textWidth =
     (if align ls = ALIGN_CENTER then
        (let x = fdiv F (fsub F (pageWidth F) textWidth) (flit F 2)
         in if fless F x (leftMargin F) then leftMargin F else x)
      else if align ls = ALIGN_RIGHT then
        (let x = fsub F (fsub F (pageWidth F) (rightMargin F)) textWidth
         in if fless F x (leftMargin F) then leftMargin F else x)
      else leftMargin F)"

text \<open>The body shared by the two layout loops: the line with its \<open>x\<close> at the height \<open>y\<close>.\<close>

definition place_line :: "'f float_ops \<Rightarrow> 'f LineSpec \<Rightarrow> 'f \<Rightarrow> 'f PositionedLine" where
  "place_line F ls y =
     (let approxCharWidth = fmul F (fint F (fontSize ls)) (flit F (1/2));
          textWidth = fmul F approxCharWidth (fsize F (length (ltext ls)))
      in \<lparr>pl_ls = ls, pl_x = computeX F ls textWidth, pl_y = y\<rparr>)"

text \<open>
  The loop over \<^verbatim>\<open>topLines\<close>, from index \<open>i\<close> on with the current \<^verbatim>\<open>yTop\<close>; it returns
  what it appends to \<^verbatim>\<open>positioned\<close>.
\<close>

function layout_top ::
  "'f float_ops \<Rightarrow> 'f LineSpec list \<Rightarrow> nat \<Rightarrow> 'f \<Rightarrow> 'f PositionedLine list" where
  "layout_top F topLines i yTop =
     (if i < length topLines then
        (let ls = topLines ! i
         in place_line F ls yTop #
            layout_top F topLines (i + 1) (fsub F yTop (fint F (add_int (fontSize ls) 4))))
      else [])"
  by pat_completeness auto
termination
  by (relation "measure (\<lambda>(F, topLines, i, yTop). length topLines - i)") auto

declare layout_top.simps [simp del]

text \<open>
  The loop over \<^verbatim>\<open>bottomLines\<close>, which counts \<^verbatim>\<open>i\<close> down from the last index to 0:
  the argument of the function is \<open>i + 1\<close>, so that the loop stops at 0.
\<close>

fun layout_bottom ::
  "'f float_ops \<Rightarrow> 'f LineSpec list \<Rightarrow> nat \<Rightarrow> 'f \<Rightarrow> 'f PositionedLine list" where
  "layout_bottom F bottomLines 0 yBottom = []"
| "layout_bottom F bottomLines (Suc i) yBottom =
     (let ls = bottomLines ! i
      in place_line F ls yBottom #
         layout_bottom F bottomLines i (fadd F yBottom (fint F (add_int (fontSize ls) 4))))"

text \<open>The vector \<^verbatim>\<open>positioned\<close> when the two loops are done (lines 279 to 327).\<close>

definition position_lines :: "'f float_ops \<Rightarrow> 'f PageSpec \<Rightarrow> 'f PositionedLine list" where
  "position_lines F page =
     (let topLines = filter (\<lambda>ls. \<not> bottomAnchor ls) (lines page);
          bottomLines = filter bottomAnchor (lines page)
      in layout_top F topLines 0 (topMarginY F) @
         layout_bottom F bottomLines (length bottomLines) (bottomMarginY F))"

definition emit_line :: "'f float_ops \<Rightarrow> 'f PositionedLine \<Rightarrow> string" where
  "emit_line F pl =
     (let ls = pl_ls pl in
      ''/F1 '' @ show_int (fontSize ls) @ '' Tf\<newline>'' @
      fshow F (r ls) @ '' '' @ fshow F (g ls) @ '' '' @ fshow F (b ls) @ '' rg\<newline>'' @
      ''1 0 0 1 '' @ fshow F (pl_x pl) @ '' '' @ fshow F (pl_y pl) @ '' Tm\<newline>'' @
      ''('' @ EscapePdfString (ltext ls) @ '') Tj\<newline>'')"

definition BuildPageContent :: "'f float_ops \<Rightarrow> 'f PageSpec \<Rightarrow> string" where
  "BuildPageContent F page =
     ''BT\<newline>'' @ concat (map (emit_line F) (position_lines F page)) @ ''ET\<newline>''"

subsection \<open>Assembling the PDF\<close>

definition catalog_object :: string where
  "catalog_object =
     ''1 0 obj\<newline>'' @ ''<< /Type /Catalog /Pages 2 0 R >>\<newline>'' @ ''endobj\<newline>''"

function kids_loop :: "int \<Rightarrow> int \<Rightarrow> int \<Rightarrow> string" where
  "kids_loop firstPageObj numPages i =
     (if i < numPages
      then '' '' @ show_int (firstPageObj + i) @ '' 0 R'' @
           kids_loop firstPageObj numPages (i + 1)
      else [])"
  by pat_completeness auto
termination
  by (relation "measure (\<lambda>(firstPageObj, numPages, i). nat (numPages - i))") auto

declare kids_loop.simps [simp del]

definition pages_object :: "int \<Rightarrow> string" where
  "pages_object numPages =
     ''2 0 obj\<newline>'' @ ''<< /Type /Pages /Kids ['' @ kids_loop 4 numPages 0 @
     '' ] /Count '' @ show_int numPages @ '' >>\<newline>'' @ ''endobj\<newline>''"

definition font_object :: string where
  "font_object =
     ''3 0 obj\<newline>'' @ ''<< /Type /Font /Subtype /Type1 /BaseFont /Helvetica >>\<newline>'' @
     ''endobj\<newline>''"

definition page_object :: "int \<Rightarrow> int \<Rightarrow> string" where
  "page_object pageObjNum contentObjNum =
     show_int pageObjNum @ '' 0 obj\<newline>'' @
     ''<< /Type /Page\<newline>'' @
     ''   /Parent 2 0 R\<newline>'' @
     ''   /MediaBox [0 0 612 792]\<newline>'' @
     ''   /Resources << /Font << /F1 3 0 R >> >>\<newline>'' @
     ''   /Contents '' @ show_int contentObjNum @ '' 0 R\<newline>'' @
     ''>>\<newline>'' @
     ''endobj\<newline>''"

function page_objects_loop :: "int \<Rightarrow> int \<Rightarrow> int \<Rightarrow> int \<Rightarrow> string list" where
  "page_objects_loop firstPageObj firstContentObj numPages i =
     (if i < numPages
      then page_object (firstPageObj + i) (firstContentObj + i) #
           page_objects_loop firstPageObj firstContentObj numPages (i + 1)
      else [])"
  by pat_completeness auto
termination
  by (relation "measure (\<lambda>(firstPageObj, firstContentObj, numPages, i). nat (numPages - i))")
    auto

declare page_objects_loop.simps [simp del]

definition content_object :: "int \<Rightarrow> string \<Rightarrow> string" where
  "content_object contentObjNum content =
     (let contentLength = to_int (int (length content)) in
      show_int contentObjNum @ '' 0 obj\<newline>'' @
      ''<< /Length '' @ show_int contentLength @ '' >>\<newline>'' @
      ''stream\<newline>'' @
      content @
      ''\<newline>endstream\<newline>'' @
      ''endobj\<newline>'')"

function content_objects_loop ::
  "'f float_ops \<Rightarrow> 'f PageSpec list \<Rightarrow> int \<Rightarrow> int \<Rightarrow> int \<Rightarrow> string list" where
  "content_objects_loop F pgs firstContentObj numPages i =
     (if i < numPages
      then content_object (firstContentObj + i) (BuildPageContent F (pgs ! nat i)) #
           content_objects_loop F pgs firstContentObj numPages (i + 1)
      else [])"
  by pat_completeness auto
termination
  by (relation "measure (\<lambda>(F, pgs, firstContentObj, numPages, i). nat (numPages - i))") auto

declare content_objects_loop.simps [simp del]

text \<open>The vector \<^verbatim>\<open>objects\<close>, with the dummy at index 0 (lines 373 to 447).\<close>

definition build_objects :: "'f float_ops \<Rightarrow> 'f PageSpec list \<Rightarrow> string list" where
  "build_objects F pgs =
     (let numPages = int (length pgs);
          firstPageObj = 4;
          firstContentObj = firstPageObj + numPages
      in [[]] @ [catalog_object] @ [pages_object numPages] @ [font_object] @
         page_objects_loop firstPageObj firstContentObj numPages 0 @
         content_objects_loop F pgs firstContentObj numPages 0)"

definition pdf_header :: string where
  "pdf_header =
     ''%PDF-1.4\<newline>'' @ [CHR ''%'', CHR 0xE2, CHR 0xE3, CHR 0xCF, CHR 0xD3, CHR 0x0A]"

text \<open>
  The loop that writes the objects: \<^verbatim>\<open>pdf.tellp()\<close> is the number of bytes written so
  far, and \<^verbatim>\<open>offsets[i]\<close> receives it before object \<open>i\<close> is written.
\<close>

function write_objects ::
  "string list \<Rightarrow> int \<Rightarrow> int \<Rightarrow> string \<times> int list \<Rightarrow> string \<times> int list" where
  "write_objects objects numObjects i (pdf, offsets) =
     (if i \<le> numObjects
      then write_objects objects numObjects (i + 1)
             (pdf @ objects ! nat i, offsets[nat i := int (length pdf)])
      else (pdf, offsets))"
  by pat_completeness auto
termination
  by (relation "measure (\<lambda>(objects, numObjects, i, acc). nat (numObjects + 1 - i))") auto

declare write_objects.simps [simp del]

function xref_loop :: "int list \<Rightarrow> int \<Rightarrow> int \<Rightarrow> string" where
  "xref_loop offsets numObjects i =
     (if i \<le> numObjects
      then setw_setfill 10 (CHR ''0'') (show_int (offsets ! nat i)) @ '' 00000 n \<newline>'' @
           xref_loop offsets numObjects (i + 1)
      else [])"
  by pat_completeness auto
termination
  by (relation "measure (\<lambda>(offsets, numObjects, i). nat (numObjects + 1 - i))") auto

declare xref_loop.simps [simp del]

text \<open>The body of the file and the vector \<^verbatim>\<open>offsets\<close> after the writing loop.\<close>

definition write_body :: "'f float_ops \<Rightarrow> 'f PageSpec list \<Rightarrow> string \<times> int list" where
  "write_body F pgs =
     (let objects = build_objects F pgs;
          numObjects = int (length objects) - 1
      in write_objects objects numObjects 1
           (pdf_header, replicate (nat (numObjects + 1)) 0))"

text \<open>The string \<^verbatim>\<open>pdfStr\<close> (lines 449 to 481).\<close>

definition assemble_pdf :: "'f float_ops \<Rightarrow> 'f PageSpec list \<Rightarrow> string" where
  "assemble_pdf F pgs =
     (let numObjects = int (length (build_objects F pgs)) - 1;
          pdf = fst (write_body F pgs);
          offsets = snd (write_body F pgs);
          xrefOffset = int (length pdf)
      in pdf @
         ''xref\<newline>'' @
         ''0 '' @ show_int (numObjects + 1) @ ''\<newline>'' @
         ''0000000000 65535 f \<newline>'' @
         xref_loop offsets numObjects 1 @
         ''trailer\<newline>'' @
         ''<< /Size '' @ show_int (numObjects + 1) @ '' /Root 1 0 R >>\<newline>'' @
         ''startxref\<newline>'' @
         show_int xrefOffset @ ''\<newline>'' @
         ''%%EOF\<newline>'')"

subsection \<open>The program\<close>

text \<open>
  What \<^verbatim>\<open>main\<close> can see of the world: its arguments (\<^verbatim>\<open>argc\<close> is their number, the
  first is the name of the program); the contents of the files it may read (\<open>None\<close>: the
  file cannot be opened); which files it can open for writing; and, for a file opened for
  writing, what the file holds once \<^verbatim>\<open>out.write\<close> has been given some bytes and the file
  is closed: these bytes when the write succeeds, something else (nothing, on a full disk)
  when it fails. The clock, the random state and the environment variables are there as
  well; \<^verbatim>\<open>main\<close> reads none of them, as the source calls neither \<^verbatim>\<open>time\<close> nor
  \<^verbatim>\<open>rand\<close> nor \<^verbatim>\<open>getenv\<close>.

  What the run leaves: the exit code, the texts on \<^verbatim>\<open>std::cout\<close> and \<^verbatim>\<open>std::cerr\<close>, and
  the output file with what it holds at the end. The source tests the stream after the
  opening only, never after \<^verbatim>\<open>out.write\<close> and \<^verbatim>\<open>out.close\<close>.
\<close>

record world =
  argv :: "string list"
  readable :: "string \<Rightarrow> string option"
  writable :: "string \<Rightarrow> bool"
  storage :: "string \<Rightarrow> string \<Rightarrow> string"
  clock :: nat
  random :: nat
  environ :: "string \<Rightarrow> string option"

record outcome =
  exit_code :: int
  cout :: string
  cerr :: string
  written :: "(string \<times> string) option"

definition main :: "'f float_ops \<Rightarrow> world \<Rightarrow> outcome" where
  "main F w =
     (if int (length (argv w)) < 2 then
        \<lparr>exit_code = 1, cout = [], cerr = ''Usage: layout2pdf <filename>\<newline>'',
         written = None\<rparr>
      else
        (let outputFile = argv w ! 1 @ ''.pdf'';
             layoutFile = argv w ! 1 @ ''.txt''
         in case ParseLayoutFile F layoutFile (readable w layoutFile) [] of
              (ok, pgs, err) \<Rightarrow>
                if \<not> ok then \<lparr>exit_code = 1, cout = [], cerr = err, written = None\<rparr>
                else if pgs = [] then
                  \<lparr>exit_code = 1, cout = [],
                   cerr = err @ ''No pages parsed from layout file.\<newline>'', written = None\<rparr>
                else
                  (let pdfStr = assemble_pdf F pgs
                   in if \<not> writable w outputFile then
                        \<lparr>exit_code = 1, cout = [],
                         cerr = err @ ''Failed to open output PDF: '' @ outputFile @ ''\<newline>'',
                         written = None\<rparr>
                      else
                        \<lparr>exit_code = 0,
                         cout = ''Saved to '' @ [CHR 0x27] @ outputFile @ [CHR 0x27] @ ''\<newline>'',
                         cerr = err,
                         written = Some (outputFile, storage w outputFile pdfStr)\<rparr>)))"

subsection \<open>Example runs\<close>

text \<open>
  The layout of the specification's example and its page; a layout with two footers of
  the largest font size and its page; then worlds for the examples
  below: this layout as \<open>doc.txt\<close> on a sound disk; the same layout under another name, at
  another time, with other arguments and an output that alone is writable; the layout on a
  full disk, where the output opens and every write fails; an empty file; no argument.
\<close>

definition hello_layout :: string where
  "hello_layout = ''[page1] 14, red, center\<newline>Hello\<newline>[/page1]\<newline>''"

definition hello_page :: "rat PageSpec" where
  "hello_page =
     \<lparr>lines = [\<lparr>ltext = ''Hello'', fontSize = 14, r = 1, g = 0, b = 0,
                  align = ALIGN_CENTER, bottomAnchor = False\<rparr>]\<rparr>"

text \<open>The PDF that the converter writes for this layout, byte by byte.\<close>

definition hello_pdf_bytes :: string where
  "hello_pdf_bytes =
     ''%PDF-1.4\<newline>'' @
     [CHR ''%'', CHR 0xE2, CHR 0xE3, CHR 0xCF, CHR 0xD3, CHR 0x0A] @
     ''1 0 obj\<newline>'' @
     ''<< /Type /Catalog /Pages 2 0 R >>\<newline>'' @
     ''endobj\<newline>'' @
     ''2 0 obj\<newline>'' @
     ''<< /Type /Pages /Kids [ 4 0 R ] /Count 1 >>\<newline>'' @
     ''endobj\<newline>'' @
     ''3 0 obj\<newline>'' @
     ''<< /Type /Font /Subtype /Type1 /BaseFont /Helvetica >>\<newline>'' @
     ''endobj\<newline>'' @
     ''4 0 obj\<newline>'' @
     ''<< /Type /Page\<newline>'' @
     ''   /Parent 2 0 R\<newline>'' @
     ''   /MediaBox [0 0 612 792]\<newline>'' @
     ''   /Resources << /Font << /F1 3 0 R >> >>\<newline>'' @
     ''   /Contents 5 0 R\<newline>'' @
     ''>>\<newline>'' @
     ''endobj\<newline>'' @
     ''5 0 obj\<newline>'' @
     ''<< /Length 57 >>\<newline>'' @
     ''stream\<newline>'' @
     ''BT\<newline>'' @
     ''/F1 14 Tf\<newline>'' @
     ''1 0 0 rg\<newline>'' @
     ''1 0 0 1 288.5 750 Tm\<newline>'' @
     ''(Hello) Tj\<newline>'' @
     ''ET\<newline>'' @
     ''\<newline>'' @
     ''endstream\<newline>'' @
     ''endobj\<newline>'' @
     ''xref\<newline>'' @
     ''0 6\<newline>'' @
     ''0000000000 65535 f \<newline>'' @
     ''0000000015 00000 n \<newline>'' @
     ''0000000064 00000 n \<newline>'' @
     ''0000000123 00000 n \<newline>'' @
     ''0000000193 00000 n \<newline>'' @
     ''0000000331 00000 n \<newline>'' @
     ''trailer\<newline>'' @
     ''<< /Size 6 /Root 1 0 R >>\<newline>'' @
     ''startxref\<newline>'' @
     ''438\<newline>'' @
     ''%%EOF\<newline>''"



definition doc_world :: world where
  "doc_world =
     \<lparr>argv = [''layout2pdf'', ''doc''],
      readable = (\<lambda>n. if n = ''doc.txt'' then Some hello_layout else None),
      writable = (\<lambda>n. True),
      storage = (\<lambda>n bytes. bytes),
      clock = 0, random = 0, environ = (\<lambda>v. None)\<rparr>"

definition copy_world :: world where
  "copy_world =
     \<lparr>argv = [''./l2p'', ''copy'', ''ignored''],
      readable = (\<lambda>n. if n = ''copy.txt'' then Some hello_layout else None),
      writable = (\<lambda>n. n = ''copy.pdf''),
      storage = (\<lambda>n bytes. bytes),
      clock = 1793318400, random = 42,
      environ = (\<lambda>v. if v = ''LANG'' then Some ''de_DE.UTF-8'' else None)\<rparr>"

definition full_disk_world :: world where
  "full_disk_world = doc_world\<lparr>storage := (\<lambda>n bytes. [])\<rparr>"

definition empty_file_world :: world where
  "empty_file_world = doc_world\<lparr>readable := (\<lambda>n. if n = ''doc.txt'' then Some [] else None)\<rparr>"

definition no_argument_world :: world where
  "no_argument_world = doc_world\<lparr>argv := [''layout2pdf'']\<rparr>"

section \<open>The parser\<close>

subsection \<open>Trimming and splitting\<close>

lemma Trim_Nil: "Trim [] = []"
  by (simp add: Trim_def)

lemma dropWhile_Trim: "dropWhile isspace (Trim s) = Trim s"
proof (cases "dropWhile isspace s")
  case Nil
  show ?thesis unfolding Trim_def Nil by simp
next
  case (Cons x t)
  then have nx: "\<not> isspace x"
    using hd_dropWhile [of isspace s] by auto
  have "\<exists>u. dropWhile isspace (rev t @ [x]) = u @ [x]"
    using nx by (cases "\<forall>c\<in>set t. isspace c") (simp_all add: dropWhile_append)
  then obtain u where u: "dropWhile isspace (rev t @ [x]) = u @ [x]" ..
  show ?thesis
    using Cons u nx by (simp add: Trim_def)
qed

lemma Trim_idem: "Trim (Trim s) = Trim s"
proof -
  have "Trim (Trim s) = rev (dropWhile isspace (rev (Trim s)))"
    unfolding Trim_def [of "Trim s"] by (simp add: dropWhile_Trim)
  also have "\<dots> = Trim s"
    by (simp add: Trim_def)
  finally show ?thesis .
qed

lemma comma_fields_nonempty: "comma_fields s \<noteq> []"
  by (induction s) auto

lemma comma_fields_single: "comma_fields s = [[]] \<longleftrightarrow> s = []"
  using comma_fields_nonempty by (cases s) auto

lemma comma_fields_snoc_comma: "comma_fields (s @ '','') = comma_fields s @ [[]]"
  using comma_fields_nonempty by (induction s) auto

text \<open>The loop of \<^verbatim>\<open>SplitByComma\<close> in terms of the fields of what is left to read.\<close>

lemma SplitByComma_loop_fields:
  "SplitByComma_loop parts cur s =
     parts @ map Trim
       (let fs = (cur @ hd (comma_fields s)) # tl (comma_fields s)
        in if last fs = [] then butlast fs else fs)"
proof (induction s arbitrary: parts cur)
  case Nil
  then show ?case by simp
next
  case (Cons c cs)
  obtain f fs where cf: "comma_fields cs = f # fs"
    using comma_fields_nonempty [of cs] by (cases "comma_fields cs") auto
  show ?case
    using Cons [of "parts @ [Trim cur]" "[]"] Cons [of parts "cur @ [c]"] cf
    by (auto simp: Let_def)
qed

lemma SplitByComma_fields:
  "SplitByComma s =
     map Trim (if last (comma_fields s) = [] then butlast (comma_fields s)
               else comma_fields s)"
proof -
  obtain f fs where cf: "comma_fields s = f # fs"
    using comma_fields_nonempty [of s] by (cases "comma_fields s") auto
  show ?thesis
    unfolding SplitByComma_def SplitByComma_loop_fields using cf by (simp add: Let_def)
qed

lemma SplitByComma_nonempty: "s \<noteq> [] \<Longrightarrow> SplitByComma s \<noteq> []"
proof -
  assume s: "s \<noteq> []"
  obtain f fs where cf: "comma_fields s = f # fs"
    using comma_fields_nonempty [of s] by (cases "comma_fields s") auto
  with s comma_fields_single [of s] have "f \<noteq> [] \<or> fs \<noteq> []" by auto
  then show ?thesis
    unfolding SplitByComma_fields cf by (cases fs) auto
qed

lemma SplitByComma_trimmed: "p \<in> set (SplitByComma s) \<Longrightarrow> Trim p = p"
  unfolding SplitByComma_fields by (auto simp: Trim_idem split: if_splits)

lemma SplitByComma_snoc_comma:
  "SplitByComma (s @ '','') =
     (if last (comma_fields s) = [] then SplitByComma s @ [[]] else SplitByComma s)"
proof -
  obtain f fs where cf: "comma_fields s = f # fs"
    using comma_fields_nonempty [of s] by (cases "comma_fields s") auto
  have "map Trim (f # fs) = map Trim (butlast (f # fs)) @ [[]]" if "last (f # fs) = []"
  proof -
    have "f # fs = butlast (f # fs) @ [last (f # fs)]"
      by (rule append_butlast_last_id [symmetric]) simp
    then have "map Trim (f # fs) = map Trim (butlast (f # fs) @ [[]])"
      using that by simp
    then show ?thesis by (simp add: Trim_Nil)
  qed
  then show ?thesis
    unfolding SplitByComma_fields comma_fields_snoc_comma cf by (simp add: Trim_Nil)
qed

subsection \<open>Names and numbers\<close>

lemma ColorFromName_black: "ColorFromName F ''black'' = (flit F 0, flit F 0, flit F 0)"
  by (simp add: ColorFromName_def ToLower_def Trim_def isspace_def tolower_def Let_def)

lemma ColorFromName_Nil: "ColorFromName F [] = (flit F 0, flit F 0, flit F 0)"
  by (simp add: ColorFromName_def ToLower_def Trim_def Let_def)

lemma AlignFromName_Nil: "AlignFromName [] = ALIGN_LEFT"
  by (simp add: AlignFromName_def ToLower_def Trim_def Let_def)

lemma to_int_id: "- (2 ^ 31) \<le> n \<Longrightarrow> n < 2 ^ 31 \<Longrightarrow> to_int n = n"
  by (simp add: to_int_def)

lemma to_int_range: "- (2 ^ 31) \<le> to_int n \<and> to_int n < 2 ^ 31"
proof -
  have "0 \<le> (n + 2 ^ 31) mod 2 ^ 32" and "(n + 2 ^ 31) mod 2 ^ 32 < (2 ^ 32 :: int)"
    by simp_all
  then show ?thesis
    by (simp add: to_int_def)
qed

lemma atoi_Nil: "atoi [] = 0"
  by (simp add: atoi_def strtol_def decimal_value_def to_int_def)

lemma atoi_small: "- (2 ^ 31) \<le> decimal_value s \<Longrightarrow> decimal_value s < 2 ^ 31 \<Longrightarrow>
    atoi s = decimal_value s"
  by (simp add: atoi_def strtol_def to_int_id)

text \<open>What \<^verbatim>\<open>atoi\<close> returns in and out of the range of \<^verbatim>\<open>int\<close>.\<close>

lemma atoi_examples:
  "atoi ''14'' = 14"
  "atoi ''-3'' = - 3"
  "atoi ''12pt'' = 12"
  "atoi ''big'' = 0"
  "atoi ''2147483647'' = 2147483647"
  "atoi ''2147483648'' = - 2147483648"
  "atoi ''4294967310'' = 14"
  "atoi ''99999999999999999999'' = - 1"
  by (simp_all add: atoi_def strtol_def decimal_value_def to_int_def isspace_def isdigit_def
      digit_val_def)

text \<open>A style directive with a trailing comma resolves to the same style without it.\<close>

lemma update_style_snoc_comma:
  "update_style F st (params @ '','') = update_style F st params"
proof (cases "params = []")
  case True
  have "SplitByComma '','' = [[]]"
    by (simp add: SplitByComma_def Trim_def)
  then show ?thesis
    by (simp add: True update_style_def atoi_Nil ColorFromName_black ColorFromName_Nil
        set_color_def)
next
  case False
  note ne = this
  show ?thesis
  proof (cases "last (comma_fields params) = []")
    case True
    have s: "SplitByComma (params @ '','') = SplitByComma params @ [[]]"
      by (simp add: SplitByComma_snoc_comma True)
    have n: "SplitByComma params \<noteq> []"
      using ne by (rule SplitByComma_nonempty)
    have bt: "ToLower (Trim []) \<noteq> ''bottom''"
      by (simp add: ToLower_def Trim_def)
    have c: "length (SplitByComma params) = 1 \<or> length (SplitByComma params) = 2 \<or>
        length (SplitByComma params) = 3 \<or> 4 \<le> length (SplitByComma params)"
      using n length_0_conv [of "SplitByComma params"] by arith
    show ?thesis
      unfolding update_style_def s Let_def using ne c
      by (auto simp: nth_append ColorFromName_black ColorFromName_Nil AlignFromName_Nil bt)
  next
    case False
    then show ?thesis
      using ne by (simp add: update_style_def SplitByComma_snoc_comma)
  qed
qed

lemma parse_lines_foldl:
  "parse_lines F st ls =
     pages (foldl (process_line F) st ls) @
     (if inPage (foldl (process_line F) st ls) \<and>
         lines (currentPage (foldl (process_line F) st ls)) \<noteq> []
      then [currentPage (foldl (process_line F) st ls)] else [])"
  by (induction ls arbitrary: st) auto

subsection \<open>The lines of the layout file\<close>

text \<open>
  C5. A line that, once the comment is stripped and the rest trimmed, starts with \<open>[\<close>, has
  no \<open>/\<close> as its second character and contains no \<open>]\<close> changes nothing in the state of
  the parser: no page is entered, the style stays, no line and no page is appended.
\<close>

theorem malformed_directive_skipped:
  assumes "line = Trim (case find_slashes raw of None \<Rightarrow> raw | Some p \<Rightarrow> take p raw)"
    and "line \<noteq> []" and "hd line = CHR ''[''"
    and "\<not> (length line > 1 \<and> line ! 1 = CHR ''/'')"
    and "CHR '']'' \<notin> set line"
  shows "process_line F st raw = st"
proof -
  from assms(5) have none: "find_char (CHR '']'') line = None"
    by (induction line) auto
  from assms(2,3) have first: "line ! 0 = CHR ''[''"
    by (cases line) auto
  show ?thesis
    unfolding process_line_def Let_def assms(1) [symmetric]
    using assms(2,4) none first by auto
qed

theorem malformed_directive_skipped_witness:
  "Trim (take 9 ''[badpage // no bracket'') = ''[badpage'' \<and>
   process_line exact_float (initial_state exact_float []) ''[badpage // no bracket''
     = initial_state exact_float []"
proof -
  have t: "Trim (take 9 ''[badpage // no bracket'') = ''[badpage''"
    by (simp add: Trim_def isspace_def)
  have f: "find_slashes ''[badpage // no bracket'' = Some 9"
    by simp
  show ?thesis
    using malformed_directive_skipped [of "''[badpage''" "''[badpage // no bracket''"
        exact_float "initial_state exact_float []"] t f
    by simp
qed

text \<open>
  C7. A line that is empty once the comment is stripped and the rest trimmed: when the line
  holds a comment marker \<open>//\<close> nothing happens; otherwise, inside a page, a spacer with
  empty text and the current font size, colour, alignment and anchor is appended to the
  current page; outside a page nothing happens.
\<close>

theorem blank_line_spacer:
  assumes "Trim (case find_slashes raw of None \<Rightarrow> raw | Some p \<Rightarrow> take p raw) = []"
  shows "process_line F st raw =
     (if find_slashes raw \<noteq> None then st
      else if inPage st then
        st\<lparr>currentPage := (currentPage st)\<lparr>lines := lines (currentPage st) @
          [\<lparr>ltext = [], fontSize = currentFontSize st,
            r = currentR st, g = currentG st, b = currentB st,
            align = currentAlign st, bottomAnchor = currentBottomAnchor st\<rparr>]\<rparr>\<rparr>
      else st)"
  using assms by (simp add: process_line_def Let_def push_line_def style_line_def)

theorem blank_line_spacer_witness:
  "lines (currentPage (process_line exact_float
      ((initial_state exact_float [])\<lparr>inPage := True, currentFontSize := 14\<rparr>) ''  ''))
     = [\<lparr>ltext = [], fontSize = 14, r = 0, g = 0, b = 0,
         align = ALIGN_LEFT, bottomAnchor = False\<rparr>]"
  using blank_line_spacer [of "''  ''" exact_float
      "(initial_state exact_float [])\<lparr>inPage := True, currentFontSize := 14\<rparr>"]
  by (simp add: Trim_def isspace_def initial_state_def exact_float_def)

text \<open>
  C4. A directive \<open>[label] params\<close> (a line that starts with \<open>[\<close>, is no closing tag and
  holds a \<open>]\<close>), with \<open>params\<close> the trimmed text after the first \<open>]\<close>. When \<open>params\<close> is
  not empty, the whole style is set from its comma-separated parts: the font size is
  \<^verbatim>\<open>atoi\<close> of part 0 (an \<^verbatim>\<open>int\<close>: a number out of range wraps), or 12 when that is
  not positive, so that it lies between 1 and 2147483647; the colour is that of part 1, black
  without it; the alignment is that of part 2, left without it; the anchor is the bottom
  exactly when part 3 exists and is \<open>bottom\<close> in lower case. When \<open>params\<close> is empty the
  style is 12, black, left, top.
\<close>

theorem directive_sets_style:
  assumes "line = Trim (case find_slashes raw of None \<Rightarrow> raw | Some p \<Rightarrow> take p raw)"
    and "line \<noteq> []" and "hd line = CHR ''[''"
    and "\<not> (length line > 1 \<and> line ! 1 = CHR ''/'')"
    and "find_char (CHR '']'') line = Some closePos"
    and "params = Trim (drop (closePos + 1) line)"
    and "parts = SplitByComma params"
    and "st' = process_line F st raw"
  shows "(params \<noteq> [] \<longrightarrow>
            currentFontSize st' = (if atoi (parts ! 0) \<le> 0 then 12 else atoi (parts ! 0)) \<and>
            (currentR st', currentG st', currentB st') =
              (if 2 \<le> length parts then ColorFromName F (parts ! 1)
               else (flit F 0, flit F 0, flit F 0)) \<and>
            currentAlign st' =
              (if 3 \<le> length parts then AlignFromName (parts ! 2) else ALIGN_LEFT) \<and>
            currentBottomAnchor st' =
              (4 \<le> length parts \<and> ToLower (parts ! 3) = ''bottom'')) \<and>
         (params = [] \<longrightarrow>
            currentFontSize st' = 12 \<and>
            (currentR st', currentG st', currentB st') = (flit F 0, flit F 0, flit F 0) \<and>
            currentAlign st' = ALIGN_LEFT \<and>
            currentBottomAnchor st' = False) \<and>
         1 \<le> currentFontSize st' \<and> currentFontSize st' \<le> 2147483647"
proof -
  define st1 where
    "st1 = (if \<not> inPage st
            then st\<lparr>inPage := True, currentPage := (currentPage st)\<lparr>lines := []\<rparr>\<rparr> else st)"
  from assms(2,3) have first: "line ! 0 = CHR ''[''"
    by (cases line) auto
  have step: "st' = update_style F st1 params"
    unfolding assms(8) process_line_def Let_def assms(1) [symmetric] st1_def [symmetric]
    using assms(2,4,5) first by (auto simp: assms(6) Trim_Nil)
  have trimmed: "Trim (parts ! 3) = parts ! 3" if "4 \<le> length parts"
    using that SplitByComma_trimmed [of "parts ! 3" params] by (simp add: assms(7))
  have nonempty: "1 \<le> length parts" if "params \<noteq> []"
    using that SplitByComma_nonempty [of params] by (cases parts) (auto simp: assms(7))
  obtain cr cg cb where c: "ColorFromName F (parts ! 1) = (cr, cg, cb)"
    by (cases "ColorFromName F (parts ! 1)") auto
  have range: "atoi (parts ! 0) \<le> 2147483647"
    using to_int_range [of "strtol (parts ! 0)"] by (simp add: atoi_def)
  show ?thesis
    unfolding step update_style_def Let_def assms(7) [symmetric]
    using trimmed nonempty c range
    by (auto simp: set_color_def ColorFromName_black)
qed

theorem directive_sets_style_witness:
  "currentFontSize (process_line exact_float (initial_state exact_float [])
      ''[page1] 14, red, center, BOTTOM'') = 14 \<and>
   currentR (process_line exact_float (initial_state exact_float [])
      ''[page1] 14, red, center, BOTTOM'') = 1 \<and>
   currentG (process_line exact_float (initial_state exact_float [])
      ''[page1] 14, red, center, BOTTOM'') = 0 \<and>
   currentB (process_line exact_float (initial_state exact_float [])
      ''[page1] 14, red, center, BOTTOM'') = 0 \<and>
   currentAlign (process_line exact_float (initial_state exact_float [])
      ''[page1] 14, red, center, BOTTOM'') = ALIGN_CENTER \<and>
   currentBottomAnchor (process_line exact_float (initial_state exact_float [])
      ''[page1] 14, red, center, BOTTOM'') = True \<and>
   currentFontSize (process_line exact_float (initial_state exact_float [])
      ''[p] 2147483648'') = 12 \<and>
   currentFontSize (process_line exact_float (initial_state exact_float [])
      ''[p] 4294967310, red'') = 14 \<and>
   currentFontSize (process_line exact_float (initial_state exact_float [])
      ''[p] 2147483647'') = 2147483647 \<and>
   currentFontSize (process_line exact_float (initial_state exact_float [])
      ''[p] -5, red'') = 12"
proof -
  have l: "Trim ''[page1] 14, red, center, BOTTOM'' = ''[page1] 14, red, center, BOTTOM''"
    by (simp add: Trim_def isspace_def)
  have p: "Trim '' 14, red, center, BOTTOM'' = ''14, red, center, BOTTOM''"
    by (simp add: Trim_def isspace_def)
  have s: "SplitByComma ''14, red, center, BOTTOM'' = [''14'', ''red'', ''center'', ''BOTTOM'']"
    by (simp add: SplitByComma_def Trim_def isspace_def)
  have n: "atoi ''14'' = 14"
    by (rule atoi_examples)
  have c: "ColorFromName exact_float ''red'' = (1, 0, 0)"
    by (simp add: ColorFromName_def ToLower_def tolower_def Trim_def isspace_def
        exact_float_def)
  have a: "AlignFromName ''center'' = ALIGN_CENTER"
    by (simp add: AlignFromName_def ToLower_def tolower_def Trim_def isspace_def)
  have bt: "ToLower ''BOTTOM'' = ''bottom''"
    by code_simp
  have 1: "currentFontSize (process_line exact_float (initial_state exact_float [])
      ''[page1] 14, red, center, BOTTOM'') = 14 \<and>
   currentR (process_line exact_float (initial_state exact_float [])
      ''[page1] 14, red, center, BOTTOM'') = 1 \<and>
   currentG (process_line exact_float (initial_state exact_float [])
      ''[page1] 14, red, center, BOTTOM'') = 0 \<and>
   currentB (process_line exact_float (initial_state exact_float [])
      ''[page1] 14, red, center, BOTTOM'') = 0 \<and>
   currentAlign (process_line exact_float (initial_state exact_float [])
      ''[page1] 14, red, center, BOTTOM'') = ALIGN_CENTER \<and>
   currentBottomAnchor (process_line exact_float (initial_state exact_float [])
      ''[page1] 14, red, center, BOTTOM'') = True"
    using directive_sets_style [of "''[page1] 14, red, center, BOTTOM''"
        "''[page1] 14, red, center, BOTTOM''" 6 "''14, red, center, BOTTOM''"
        "[''14'', ''red'', ''center'', ''BOTTOM'']" _ exact_float "initial_state exact_float []",
        OF _ _ _ _ _ _ _ refl]
    by (simp add: l p s n c a bt)
  have 2: "currentFontSize (process_line exact_float (initial_state exact_float [])
      ''[p] 2147483648'') = 12"
    using directive_sets_style [of "''[p] 2147483648''" "''[p] 2147483648''" 2
        "''2147483648''" "[''2147483648'']" _ exact_float "initial_state exact_float []",
        OF _ _ _ _ _ _ _ refl]
    by (simp add: Trim_def isspace_def SplitByComma_def atoi_examples)
  have 3: "currentFontSize (process_line exact_float (initial_state exact_float [])
      ''[p] 4294967310, red'') = 14"
    using directive_sets_style [of "''[p] 4294967310, red''" "''[p] 4294967310, red''" 2
        "''4294967310, red''" "[''4294967310'', ''red'']" _ exact_float
        "initial_state exact_float []", OF _ _ _ _ _ _ _ refl]
    by (simp add: Trim_def isspace_def SplitByComma_def atoi_examples)
  have 4: "currentFontSize (process_line exact_float (initial_state exact_float [])
      ''[p] 2147483647'') = 2147483647"
    using directive_sets_style [of "''[p] 2147483647''" "''[p] 2147483647''" 2
        "''2147483647''" "[''2147483647'']" _ exact_float "initial_state exact_float []",
        OF _ _ _ _ _ _ _ refl]
    by (simp add: Trim_def isspace_def SplitByComma_def atoi_examples)
  have m: "atoi ''-5'' = - 5"
    by (simp add: atoi_def strtol_def decimal_value_def to_int_def isspace_def isdigit_def
        digit_val_def)
  have 5: "currentFontSize (process_line exact_float (initial_state exact_float [])
      ''[p] -5, red'') = 12"
    using directive_sets_style [of "''[p] -5, red''" "''[p] -5, red''" 2
        "''-5, red''" "[''-5'', ''red'']" _ exact_float "initial_state exact_float []",
        OF _ _ _ _ _ _ _ refl]
    by (simp add: Trim_def isspace_def SplitByComma_def m)
  from 1 2 3 4 5 show ?thesis
    by blast
qed

text \<open>
  C6. At the end of the input, with the state \<open>final\<close> that the lines have led to: the
  pages are those closed so far, followed by the page still open exactly when the parser
  is inside a page and that page holds at least one line.
\<close>

theorem end_of_input_page:
  assumes "final = foldl (process_line F) (initial_state F ps) (getlines [] contents)"
  shows "ParseLayoutFile F filename (Some contents) ps =
     (True,
      pages final @
        (if inPage final \<and> lines (currentPage final) \<noteq> [] then [currentPage final] else []),
      [])"
  using assms by (simp add: ParseLayoutFile_def parse_lines_foldl)

theorem end_of_input_page_witness:
  "ParseLayoutFile exact_float ''in.txt'' (Some ''[p]\<newline>Hello'') [] =
     (True, [\<lparr>lines = [\<lparr>ltext = ''Hello'', fontSize = 12, r = 0, g = 0, b = 0,
         align = ALIGN_LEFT, bottomAnchor = False\<rparr>]\<rparr>], []) \<and>
   ParseLayoutFile exact_float ''in.txt'' (Some ''[p]\<newline>'') [] = (True, [], [])"
proof -
  have i: "process_line exact_float (initial_state exact_float []) ''[p]''
      = (initial_state exact_float [])\<lparr>inPage := True\<rparr>"
    by (simp add: process_line_def Trim_def isspace_def update_style_def initial_state_def
        set_color_def ColorFromName_black)
  have h: "process_line exact_float ((initial_state exact_float [])\<lparr>inPage := True\<rparr>) ''Hello''
      = (initial_state exact_float [])\<lparr>inPage := True,
          currentPage := \<lparr>lines = [\<lparr>ltext = ''Hello'', fontSize = 12, r = 0, g = 0, b = 0,
             align = ALIGN_LEFT, bottomAnchor = False\<rparr>]\<rparr>\<rparr>"
    by (simp add: process_line_def Trim_def isspace_def initial_state_def push_line_def
        style_line_def exact_float_def)
  show ?thesis
    using end_of_input_page [of _ exact_float "[]" "''[p]\<newline>Hello''" "''in.txt''", OF refl]
      end_of_input_page [of _ exact_float "[]" "''[p]\<newline>''" "''in.txt''", OF refl]
    by (simp add: i h) (simp add: initial_state_def)
qed

text \<open>
  C10. \<^verbatim>\<open>SplitByComma\<close> returns the trimmed fields between the commas, without the last
  field when that is empty before trimming: so a comma at the very end adds no part, an
  empty field between two commas is a part, and so is a last field of white space. A
  style directive with a trailing comma sets the style that it sets without the comma.
\<close>

theorem trailing_comma_dropped:
  "SplitByComma s =
     map Trim (if last (comma_fields s) = [] then butlast (comma_fields s)
               else comma_fields s) \<and>
   update_style F st (params @ '','') = update_style F st params \<and>
   process_line F st ''[p] 14, red,'' = process_line F st ''[p] 14, red'' \<and>
   currentAlign (process_line F st ''[p] 14, red,'') = ALIGN_LEFT \<and>
   currentBottomAnchor (process_line F st ''[p] 14, red,'') = False \<and>
   SplitByComma ''14, red,'' = [''14'', ''red''] \<and>
   SplitByComma ''14,,center'' = [''14'', [], ''center''] \<and>
   SplitByComma ''14, red, '' = [''14'', ''red'', []]"
proof -
  have a: "process_line F st ''[p] 14, red,'' =
      update_style F (if \<not> inPage st
            then st\<lparr>inPage := True, currentPage := (currentPage st)\<lparr>lines := []\<rparr>\<rparr> else st)
        (''14, red'' @ '','')"
    by (simp add: process_line_def Trim_def isspace_def)
  have b: "process_line F st ''[p] 14, red'' =
      update_style F (if \<not> inPage st
            then st\<lparr>inPage := True, currentPage := (currentPage st)\<lparr>lines := []\<rparr>\<rparr> else st)
        ''14, red''"
    by (simp add: process_line_def Trim_def isspace_def)
  have c: "SplitByComma ''14, red'' = [''14'', ''red'']"
    by (simp add: SplitByComma_def Trim_def isspace_def)
  have d: "currentAlign (update_style F st0 ''14, red'') = ALIGN_LEFT \<and>
      currentBottomAnchor (update_style F st0 ''14, red'') = False" for st0 :: "'a parser_state"
    by (simp add: update_style_def c)
  show ?thesis
    unfolding a b update_style_snoc_comma
    using d by (simp add: SplitByComma_fields) (simp add: SplitByComma_def Trim_def isspace_def)
qed

theorem trailing_comma_dropped_witness:
  "SplitByComma ''a,,b,'' = [''a'', [], ''b''] \<and>
   update_style exact_float (initial_state exact_float []) ''14, red,''
     = update_style exact_float (initial_state exact_float []) ''14, red''"
  using trailing_comma_dropped [of "''a,,b,''" exact_float "initial_state exact_float []"
      "''14, red''"]
  by (simp add: Trim_def isspace_def)

section \<open>The content stream\<close>






text \<open>The sum \<^verbatim>\<open>fontSize + 4\<close> in \<^verbatim>\<open>int\<close>: exact up to 2147483643, wrapped above.\<close>

lemma add_int_4: "- 2147483648 \<le> a \<Longrightarrow> a \<le> 2147483643 \<Longrightarrow> add_int a 4 = a + 4"
  by (simp add: add_int_def to_int_id)






text \<open>
  In exact arithmetic: two bottom-anchored lines \<open>A\<close> then \<open>B\<close> of the same font size, up
  to 2147483643, are at \<open>y = 72 + fontSize + 4\<close> and \<open>y = 72\<close>.
\<close>

lemma two_footers_exact:
  assumes "bottomAnchor A" and "bottomAnchor B" and "fontSize A = fontSize B"
    and "- 2147483648 \<le> fontSize B" and "fontSize B \<le> 2147483643"
  shows "map (\<lambda>pl. (pl_ls pl, pl_y pl)) (position_lines exact_float \<lparr>lines = [A, B]\<rparr>) =
     [(B, 72), (A, 72 + rat_of_int (fontSize A) + 4)]"
  using assms(1,2,3) add_int_4 [OF assms(4,5)]
  by (simp add: position_lines_def layout_top.simps [of _ "[]"] numeral_2_eq_2
      Let_def place_line_def bottomMarginY_def exact_float_def)

section \<open>The example of the specification\<close>

text \<open>
  The layout \<^verbatim>\<open>[page1] 14, red, center\<close>, \<^verbatim>\<open>Hello\<close>, \<^verbatim>\<open>[/page1]\<close> parses to one page
  with one red, centred line of size 14, placed at \<open>x = (612 - 14 * 0.5 * 5) / 2 = 288.5\<close>
  and \<open>y = 750\<close>; the content stream of the page follows.
\<close>

lemma hello_open:
  "process_line exact_float (initial_state exact_float []) ''[page1] 14, red, center'' =
     (initial_state exact_float [])\<lparr>inPage := True, currentFontSize := 14, currentR := 1,
        currentAlign := ALIGN_CENTER\<rparr>"
  by (simp add: process_line_def Trim_def isspace_def update_style_def SplitByComma_def
      atoi_examples ColorFromName_def AlignFromName_def ToLower_def
      tolower_def set_color_def initial_state_def exact_float_def Let_def)

lemma hello_text:
  "process_line exact_float
     ((initial_state exact_float [])\<lparr>inPage := True, currentFontSize := 14, currentR := 1,
        currentAlign := ALIGN_CENTER\<rparr>) ''Hello'' =
   (initial_state exact_float [])\<lparr>inPage := True, currentFontSize := 14, currentR := 1,
      currentAlign := ALIGN_CENTER, currentPage := hello_page\<rparr>"
  by (simp add: process_line_def Trim_def isspace_def push_line_def style_line_def
      initial_state_def exact_float_def hello_page_def Let_def)

lemma hello_close:
  "process_line exact_float
     ((initial_state exact_float [])\<lparr>inPage := True, currentFontSize := 14, currentR := 1,
      currentAlign := ALIGN_CENTER, currentPage := hello_page\<rparr>) ''[/page1]'' =
   (initial_state exact_float [])\<lparr>currentFontSize := 14, currentR := 1,
      currentAlign := ALIGN_CENTER, pages := [hello_page]\<rparr>"
  by (simp add: process_line_def Trim_def isspace_def initial_state_def Let_def)

lemma hello_lines:
  "getlines [] hello_layout = [''[page1] 14, red, center'', ''Hello'', ''[/page1]'']"
  by (simp add: hello_layout_def)

lemma hello_parse_lines:
  "parse_lines exact_float (initial_state exact_float []) (getlines [] hello_layout) =
     [hello_page]"
  by (simp add: hello_lines hello_open hello_text hello_close) (simp add: initial_state_def)

lemma hello_parse:
  "ParseLayoutFile exact_float name (Some hello_layout) [] = (True, [hello_page], [])"
  by (simp add: ParseLayoutFile_def hello_parse_lines del: parse_lines.simps)

lemma hello_position:
  "position_lines exact_float hello_page =
     [\<lparr>pl_ls = \<lparr>ltext = ''Hello'', fontSize = 14, r = 1, g = 0, b = 0,
        align = ALIGN_CENTER, bottomAnchor = False\<rparr>, pl_x = 577 / 2, pl_y = 750\<rparr>]"
  by (simp add: hello_page_def position_lines_def layout_top.simps [of _ "[x]" for x]
      place_line_def computeX_def pageWidth_def leftMargin_def topMarginY_def exact_float_def
      Let_def)

lemma show_nat_examples:
  "show_nat 1 = ''1''" "show_nat 100000 = ''100000''" "show_nat 288 = ''288''"
  "show_nat 288500 = ''288500''" "show_nat 750 = ''750''" "show_nat 750000 = ''750000''"
  "show_nat 14 = ''14''" "show_nat (Suc 0) = ''1''"
  by (simp_all add: show_nat.simps digit_char_def char_of_def bit_Suc_0_iff)

lemma show_float_examples:
  "show_float 0 = ''0''" "show_float 1 = ''1''" "show_float (577 / 2) = ''288.5''"
  "show_float 750 = ''750''"
proof -
  show "show_float 0 = ''0''"
    by (simp add: show_float_def)
  have "dec_exponent 1 = 0" "round_half_even (1 / pow10 (0 - 5)) = 100000"
    by (simp_all add: dec_exponent_def round_half_even_def pow10_def show_nat_examples)
  then show "show_float 1 = ''1''"
    by (simp add: show_float_def show_nat_examples fraction_digits_def)
  have "\<lfloor>577 / 2 :: rat\<rfloor> = 288"
    by (rule floor_unique) simp_all
  then have "dec_exponent (577 / 2) = 2" "round_half_even (577 / 2 / pow10 (2 - 5)) = 288500"
    by (simp_all add: dec_exponent_def round_half_even_def pow10_def show_nat_examples)
  then show "show_float (577 / 2) = ''288.5''"
    by (simp add: show_float_def show_nat_examples fraction_digits_def)
  have "dec_exponent 750 = 2" "round_half_even (750 / pow10 (2 - 5)) = 750000"
    by (simp_all add: dec_exponent_def round_half_even_def pow10_def show_nat_examples)
  then show "show_float 750 = ''750''"
    by (simp add: show_float_def show_nat_examples fraction_digits_def)
qed

lemma hello_content:
  "BuildPageContent exact_float hello_page =
     ''BT\<newline>/F1 14 Tf\<newline>1 0 0 rg\<newline>1 0 0 1 288.5 750 Tm\<newline>(Hello) Tj\<newline>ET\<newline>''"
  by (simp add: BuildPageContent_def hello_position emit_line_def show_int_def
      show_nat_examples)
    (simp add: exact_float_def show_float_examples)

section \<open>The assembler\<close>

text \<open>The counting loops of \<^verbatim>\<open>main\<close> as maps over the indices they run through.\<close>

lemma kids_loop_eq:
  "0 \<le> i \<Longrightarrow>
   kids_loop firstPageObj numPages i =
     concat (map (\<lambda>k. '' '' @ show_int (firstPageObj + int k) @ '' 0 R'') [nat i ..< nat numPages])"
proof (induction firstPageObj numPages i rule: kids_loop.induct)
  case (1 firstPageObj numPages i)
  show ?case
  proof (cases "i < numPages")
    case True
    with "1.prems" have u: "[nat i ..< nat numPages] = nat i # [nat (i + 1) ..< nat numPages]"
      by (simp add: upt_conv_Cons nat_add_distrib)
    from True "1.prems" "1.IH" show ?thesis
      by (subst kids_loop.simps) (simp add: u)
  next
    case False
    with "1.prems" show ?thesis
      by (subst kids_loop.simps) simp
  qed
qed

lemma page_objects_loop_eq:
  "0 \<le> i \<Longrightarrow>
   page_objects_loop firstPageObj firstContentObj numPages i =
     map (\<lambda>k. page_object (firstPageObj + int k) (firstContentObj + int k))
       [nat i ..< nat numPages]"
proof (induction firstPageObj firstContentObj numPages i rule: page_objects_loop.induct)
  case (1 firstPageObj firstContentObj numPages i)
  show ?case
  proof (cases "i < numPages")
    case True
    with "1.prems" have u: "[nat i ..< nat numPages] = nat i # [nat (i + 1) ..< nat numPages]"
      by (simp add: upt_conv_Cons nat_add_distrib)
    from True "1.prems" "1.IH" show ?thesis
      by (subst page_objects_loop.simps) (simp add: u)
  next
    case False
    with "1.prems" show ?thesis
      by (subst page_objects_loop.simps) simp
  qed
qed

lemma content_objects_loop_eq:
  "0 \<le> i \<Longrightarrow>
   content_objects_loop F pgs firstContentObj numPages i =
     map (\<lambda>k. content_object (firstContentObj + int k) (BuildPageContent F (pgs ! k)))
       [nat i ..< nat numPages]"
proof (induction F pgs firstContentObj numPages i rule: content_objects_loop.induct)
  case (1 F pgs firstContentObj numPages i)
  show ?case
  proof (cases "i < numPages")
    case True
    with "1.prems" have u: "[nat i ..< nat numPages] = nat i # [nat (i + 1) ..< nat numPages]"
      by (simp add: upt_conv_Cons nat_add_distrib)
    from True "1.prems" "1.IH" show ?thesis
      by (subst content_objects_loop.simps) (simp add: u)
  next
    case False
    with "1.prems" show ?thesis
      by (subst content_objects_loop.simps) simp
  qed
qed

lemma build_objects_eq:
  "build_objects F pgs =
     [[], catalog_object, pages_object (int (length pgs)), font_object] @
     map (\<lambda>k. page_object (4 + int k) (4 + int (length pgs) + int k)) [0 ..< length pgs] @
     map (\<lambda>k. content_object (4 + int (length pgs) + int k) (BuildPageContent F (pgs ! k)))
       [0 ..< length pgs]"
  by (simp add: build_objects_def Let_def page_objects_loop_eq content_objects_loop_eq)

lemma length_build_objects: "length (build_objects F pgs) = 4 + 2 * length pgs"
  by (simp add: build_objects_eq)

lemma build_objects_page:
  "k < length pgs \<Longrightarrow>
   build_objects F pgs ! (4 + k) = page_object (4 + int k) (4 + int (length pgs) + int k)"
  by (simp add: build_objects_eq nth_append)

lemma build_objects_content:
  "k < length pgs \<Longrightarrow>
   build_objects F pgs ! (4 + length pgs + k) =
     content_object (4 + int (length pgs) + int k) (BuildPageContent F (pgs ! k))"
  by (simp add: build_objects_eq nth_append)

lemma show_int_1: "show_int 1 = ''1''"
  by code_simp

lemma show_int_2: "show_int 2 = ''2''"
  by code_simp

lemma show_int_3: "show_int 3 = ''3''"
  by code_simp


lemma build_objects_numbered:
  assumes "1 \<le> i" and "i \<le> 3 + 2 * length pgs"
  shows "prefix (show_int (int i) @ '' 0 obj\<newline>'') (build_objects F pgs ! i)"
proof -
  have "i = 1 \<or> i = 2 \<or> i = 3 \<or> (\<exists>k<length pgs. i = 4 + k) \<or>
      (\<exists>k<length pgs. i = 4 + length pgs + k)"
  proof (cases "i < 4")
    case True
    with assms show ?thesis by arith
  next
    case False
    show ?thesis
    proof (cases "i < 4 + length pgs")
      case True
      with False have "i - 4 < length pgs \<and> i = 4 + (i - 4)" by arith
      then show ?thesis by blast
    next
      case False
      with assms have "i - 4 - length pgs < length pgs \<and> i = 4 + length pgs + (i - 4 - length pgs)"
        by arith
      then show ?thesis by blast
    qed
  qed
  then consider "i = 1" | "i = 2" | "i = 3" | k where "i = 4 + k" "k < length pgs"
    | k where "i = 4 + length pgs + k" "k < length pgs"
    by blast
  then show ?thesis
  proof cases
    case 1
    then show ?thesis
      by (simp add: build_objects_eq catalog_object_def show_int_1)
  next
    case 2
    then show ?thesis
      by (simp add: build_objects_eq pages_object_def show_int_2)
  next
    case 3
    then show ?thesis
      by (simp add: build_objects_eq font_object_def show_int_3)
  next
    case 4
    show ?thesis
      unfolding 4(1) build_objects_page [OF 4(2)] page_object_def by simp
  next
    case 5
    show ?thesis
      unfolding 5(1) build_objects_content [OF 5(2)] content_object_def Let_def by simp
  qed
qed


text \<open>
  The writing loop: what it appends to the stream, which offsets it leaves alone and
  which value it stores for an object.
\<close>

lemma write_objects_fst:
  "0 \<le> i \<Longrightarrow>
   fst (write_objects objects numObjects i acc) =
     fst acc @ concat (map (\<lambda>k. objects ! k) [nat i ..< nat (numObjects + 1)])"
proof (induction objects numObjects i acc rule: write_objects.induct)
  case (1 objects numObjects i pdf offsets)
  show ?case
  proof (cases "i \<le> numObjects")
    case True
    from True "1.prems" have lt: "nat i < nat (numObjects + 1)" by simp
    from "1.prems" have s: "nat (i + 1) = Suc (nat i)" by simp
    have u: "[nat i ..< nat (numObjects + 1)] =
        nat i # [nat (i + 1) ..< nat (numObjects + 1)]"
      unfolding s using lt by (rule upt_conv_Cons)
    from True "1.prems" "1.IH" show ?thesis
      by (subst write_objects.simps) (simp add: u)
  next
    case False
    with "1.prems" show ?thesis
      by (subst write_objects.simps) simp
  qed
qed

lemma write_objects_before:
  "0 \<le> i \<Longrightarrow> j < nat i \<Longrightarrow>
   snd (write_objects objects numObjects i acc) ! j = snd acc ! j"
proof (induction objects numObjects i acc rule: write_objects.induct)
  case (1 objects numObjects i pdf offsets)
  show ?case
  proof (cases "i \<le> numObjects")
    case True
    from "1.prems" have "j < nat (i + 1)" and "j \<noteq> nat i" by simp_all
    with True "1.prems" "1.IH" show ?thesis
      by (subst write_objects.simps) simp
  next
    case False
    then show ?thesis
      by (subst write_objects.simps) simp
  qed
qed

lemma write_objects_offset:
  "0 \<le> i \<Longrightarrow> nat i \<le> j \<Longrightarrow> int j \<le> numObjects \<Longrightarrow> j < length (snd acc) \<Longrightarrow>
   snd (write_objects objects numObjects i acc) ! j =
     int (length (fst acc) + length (concat (map (\<lambda>k. objects ! k) [nat i ..< j])))"
proof (induction objects numObjects i acc rule: write_objects.induct)
  case (1 objects numObjects i pdf offsets)
  from "1.prems" have le: "i \<le> numObjects" by simp
  show ?case
  proof (cases "j = nat i")
    case True
    have "snd (write_objects objects numObjects (i + 1)
        (pdf @ objects ! nat i, offsets[nat i := int (length pdf)])) ! j =
        snd (pdf @ objects ! nat i, offsets[nat i := int (length pdf)]) ! j"
      using "1.prems" True by (intro write_objects_before) simp_all
    with le True "1.prems" show ?thesis
      by (subst write_objects.simps) simp
  next
    case False
    from False "1.prems" have lt: "nat i < j" by simp
    from "1.prems" have s: "nat (i + 1) = Suc (nat i)" by simp
    have u: "[nat i ..< j] = nat i # [nat (i + 1) ..< j]"
      unfolding s using lt by (rule upt_conv_Cons)
    from lt s have "nat (i + 1) \<le> j" by simp
    with le "1.prems" "1.IH" show ?thesis
      by (subst write_objects.simps) (simp add: u)
  qed
qed

lemma nat_numObjects: "nat (4 + 2 * int n) = 4 + 2 * n"
  by simp

lemma write_body_fst:
  "fst (write_body F pgs) =
     pdf_header @ concat (map (\<lambda>k. build_objects F pgs ! k) [1 ..< 4 + 2 * length pgs])"
  by (simp add: write_body_def Let_def write_objects_fst length_build_objects
      nat_numObjects del: nat_int_add)

lemma write_body_offset:
  assumes "1 \<le> j" and "j \<le> 3 + 2 * length pgs"
  shows "snd (write_body F pgs) ! j =
     int (length pdf_header + length (concat (map (\<lambda>k. build_objects F pgs ! k) [1 ..< j])))"
proof -
  have "snd (write_objects (build_objects F pgs) (int (length (build_objects F pgs)) - 1) 1
      (pdf_header, replicate (nat (int (length (build_objects F pgs)) - 1 + 1)) 0)) ! j =
    int (length (fst (pdf_header, replicate (nat (int (length (build_objects F pgs)) - 1 + 1)) (0::int))) +
      length (concat (map (\<lambda>k. build_objects F pgs ! k) [nat 1 ..< j])))"
    using assms by (intro write_objects_offset) (simp_all add: length_build_objects)
  then show ?thesis
    by (simp add: write_body_def Let_def)
qed

lemma kids_shift:
  "map (\<lambda>k. '' '' @ show_int (4 + int k) @ '' 0 R'') [0 ..< N] =
   map (\<lambda>k. '' '' @ show_int (int k) @ '' 0 R'') [4 ..< 4 + N]"
  by (rule nth_equalityI) simp_all

lemma show_int_examples:
  "show_int 4 = ''4''" "show_int 5 = ''5''" "show_int 6 = ''6''" "show_int 57 = ''57''"
  "show_int 15 = ''15''" "show_int 64 = ''64''" "show_int 123 = ''123''"
  "show_int 193 = ''193''" "show_int 331 = ''331''" "show_int 438 = ''438''"
  by code_simp+

lemma BuildPageContent_frame:
  "prefix ''BT\<newline>'' (BuildPageContent F page) \<and> suffix ''ET\<newline>'' (BuildPageContent F page)"
proof -
  have "suffix ''ET\<newline>'' (''BT\<newline>'' @ concat (map (emit_line F) (position_lines F page)) @ ''ET\<newline>'')"
    by (intro suffixI [of _ "''BT\<newline>'' @ concat (map (emit_line F) (position_lines F page))"]) simp
  then show ?thesis
    by (simp add: BuildPageContent_def)
qed

text \<open>
  C1. For \<open>N \<ge> 1\<close> pages the vector \<^verbatim>\<open>objects\<close> holds, after the dummy at index 0, exactly
  \<open>3 + 2N\<close> objects, object \<open>i\<close> at index \<open>i\<close> and starting with \<open>i 0 obj\<close>, and the
  body of the file is the header followed by the objects 1 to \<open>3 + 2N\<close> in this order.
  Object 1 is the catalog, which refers to object 2; object 2 is the page tree, whose
  \<open>/Kids\<close> are the objects 4 to \<open>3 + N\<close> in order and whose \<open>/Count\<close> is \<open>N\<close>; object 3 is
  the font. For \<open>i\<close> from 1 to \<open>N\<close>, object \<open>3 + i\<close> is a dictionary of type \<open>/Page\<close> whose
  \<open>/Contents\<close> is \<open>3 + N + i 0 R\<close>, and object \<open>3 + N + i\<close> is a stream object whose
  stream is the content stream of page \<open>i\<close>, from \<open>BT\<close> to \<open>ET\<close>, and whose \<open>/Length\<close> is
  the size of this stream as an \<^verbatim>\<open>int\<close>. Every object is given byte by byte.
\<close>

theorem object_numbering:
  assumes "pgs \<noteq> []" and "N = length pgs" and "objects = build_objects F pgs"
  shows "length objects = 1 + (3 + 2 * N) \<and>
     (\<forall>i\<in>{1..3 + 2 * N}. prefix (show_int (int i) @ '' 0 obj\<newline>'') (objects ! i)) \<and>
     fst (write_body F pgs) = pdf_header @ concat (map (\<lambda>i. objects ! i) [1 ..< 4 + 2 * N]) \<and>
     objects ! 1 =
       ''1 0 obj\<newline><< /Type /Catalog /Pages 2 0 R >>\<newline>endobj\<newline>'' \<and>
     objects ! 2 =
       ''2 0 obj\<newline><< /Type /Pages /Kids ['' @
       concat (map (\<lambda>k. '' '' @ show_int (int k) @ '' 0 R'') [4 ..< 4 + N]) @
       '' ] /Count '' @ show_int (int N) @ '' >>\<newline>endobj\<newline>'' \<and>
     objects ! 3 =
       ''3 0 obj\<newline><< /Type /Font /Subtype /Type1 /BaseFont /Helvetica >>\<newline>endobj\<newline>'' \<and>
     (\<forall>i\<in>{1..N}. objects ! (3 + i) =
        show_int (int (3 + i)) @ '' 0 obj\<newline>'' @
        ''<< /Type /Page\<newline>'' @
        ''   /Parent 2 0 R\<newline>'' @
        ''   /MediaBox [0 0 612 792]\<newline>'' @
        ''   /Resources << /Font << /F1 3 0 R >> >>\<newline>'' @
        ''   /Contents '' @ show_int (int (3 + N + i)) @ '' 0 R\<newline>'' @
        ''>>\<newline>'' @
        ''endobj\<newline>'') \<and>
     (\<forall>i\<in>{1..N}. objects ! (3 + N + i) =
        show_int (int (3 + N + i)) @ '' 0 obj\<newline>'' @
        ''<< /Length '' @
        show_int (to_int (int (length (BuildPageContent F (pgs ! (i - 1)))))) @ '' >>\<newline>'' @
        ''stream\<newline>'' @
        BuildPageContent F (pgs ! (i - 1)) @
        ''\<newline>endstream\<newline>'' @
        ''endobj\<newline>'' \<and>
        prefix ''BT\<newline>'' (BuildPageContent F (pgs ! (i - 1))) \<and>
        suffix ''ET\<newline>'' (BuildPageContent F (pgs ! (i - 1))))"
proof -
  have 1: "length objects = 1 + (3 + 2 * N)"
    by (simp add: assms length_build_objects)
  have 2: "prefix (show_int (int i) @ '' 0 obj\<newline>'') (objects ! i)" if "i \<in> {1..3 + 2 * N}" for i
    using that build_objects_numbered [of i pgs F] by (simp add: assms)
  have 3: "fst (write_body F pgs) = pdf_header @ concat (map (\<lambda>i. objects ! i) [1 ..< 4 + 2 * N])"
    by (simp add: assms write_body_fst)
  have 4: "objects ! 1 =
       ''1 0 obj\<newline><< /Type /Catalog /Pages 2 0 R >>\<newline>endobj\<newline>''"
    by (simp add: assms build_objects_eq catalog_object_def)
  have 5: "objects ! 2 =
       ''2 0 obj\<newline><< /Type /Pages /Kids ['' @
       concat (map (\<lambda>k. '' '' @ show_int (int k) @ '' 0 R'') [4 ..< 4 + N]) @
       '' ] /Count '' @ show_int (int N) @ '' >>\<newline>endobj\<newline>''"
    using kids_shift [of N]
    by (simp add: assms(3) build_objects_eq pages_object_def kids_loop_eq
        assms(2) [symmetric])
  have 6: "objects ! 3 =
       ''3 0 obj\<newline><< /Type /Font /Subtype /Type1 /BaseFont /Helvetica >>\<newline>endobj\<newline>''"
    by (simp add: assms build_objects_eq font_object_def)
  have 7: "objects ! (3 + i) =
        show_int (int (3 + i)) @ '' 0 obj\<newline>'' @
        ''<< /Type /Page\<newline>'' @
        ''   /Parent 2 0 R\<newline>'' @
        ''   /MediaBox [0 0 612 792]\<newline>'' @
        ''   /Resources << /Font << /F1 3 0 R >> >>\<newline>'' @
        ''   /Contents '' @ show_int (int (3 + N + i)) @ '' 0 R\<newline>'' @
        ''>>\<newline>'' @
        ''endobj\<newline>''" if "i \<in> {1..N}" for i
  proof -
    from that have i: "3 + i = 4 + (i - 1)" and l: "i - 1 < length pgs"
      unfolding assms(2) atLeastAtMost_iff by arith+
    from that have a: "4 + int (i - 1) = int (3 + i)"
      and b: "4 + int (length pgs) + int (i - 1) = int (3 + N + i)"
      unfolding assms(2) atLeastAtMost_iff by simp_all
    show ?thesis
      unfolding assms(3) i build_objects_page [OF l] page_object_def a b
      unfolding i [symmetric] ..
  qed
  have 8: "objects ! (3 + N + i) =
        show_int (int (3 + N + i)) @ '' 0 obj\<newline>'' @
        ''<< /Length '' @
        show_int (to_int (int (length (BuildPageContent F (pgs ! (i - 1)))))) @ '' >>\<newline>'' @
        ''stream\<newline>'' @
        BuildPageContent F (pgs ! (i - 1)) @
        ''\<newline>endstream\<newline>'' @
        ''endobj\<newline>'' \<and>
        prefix ''BT\<newline>'' (BuildPageContent F (pgs ! (i - 1))) \<and>
        suffix ''ET\<newline>'' (BuildPageContent F (pgs ! (i - 1)))"
    if "i \<in> {1..N}" for i
  proof -
    from that have i: "3 + N + i = 4 + length pgs + (i - 1)" and l: "i - 1 < length pgs"
      unfolding assms(2) atLeastAtMost_iff by arith+
    from that have b: "4 + int (length pgs) + int (i - 1) = int (3 + N + i)"
      unfolding assms(2) atLeastAtMost_iff by simp
    have "objects ! (3 + N + i) =
        show_int (int (3 + N + i)) @ '' 0 obj\<newline>'' @
        ''<< /Length '' @
        show_int (to_int (int (length (BuildPageContent F (pgs ! (i - 1)))))) @ '' >>\<newline>'' @
        ''stream\<newline>'' @
        BuildPageContent F (pgs ! (i - 1)) @
        ''\<newline>endstream\<newline>'' @
        ''endobj\<newline>''"
      unfolding assms(3) i build_objects_content [OF l] content_object_def Let_def b
      unfolding i [symmetric] ..
    with BuildPageContent_frame [of F "pgs ! (i - 1)"] show ?thesis
      by blast
  qed
  from 1 2 3 4 5 6 7 8 show ?thesis by blast
qed

theorem object_numbering_witness:
  "length (build_objects exact_float [hello_page]) = 6 \<and>
   build_objects exact_float [hello_page] ! 2 =
     ''2 0 obj\<newline><< /Type /Pages /Kids [ 4 0 R ] /Count 1 >>\<newline>endobj\<newline>'' \<and>
   build_objects exact_float [hello_page] ! 4 =
     ''4 0 obj\<newline><< /Type /Page\<newline>   /Parent 2 0 R\<newline>   /MediaBox [0 0 612 792]\<newline>   /Resources << /Font << /F1 3 0 R >> >>\<newline>   /Contents 5 0 R\<newline>>>\<newline>endobj\<newline>'' \<and>
   build_objects exact_float [hello_page] ! 5 =
     ''5 0 obj\<newline><< /Length 57 >>\<newline>stream\<newline>BT\<newline>/F1 14 Tf\<newline>1 0 0 rg\<newline>1 0 0 1 288.5 750 Tm\<newline>(Hello) Tj\<newline>ET\<newline>\<newline>endstream\<newline>endobj\<newline>''"
  using object_numbering [of "[hello_page]" 1 _ exact_float, OF _ _ refl]
  by (simp add: hello_content show_int_examples show_int_1 to_int_def)

subsection \<open>Decimal numbers\<close>

lemma isdigit_digit_char: "d < 10 \<Longrightarrow> isdigit (digit_char d)"
  by (simp add: isdigit_def digit_char_def)

lemma digit_val_digit_char: "d < 10 \<Longrightarrow> digit_val (digit_char d) = int d"
  by (simp add: digit_val_def digit_char_def)

lemma isdigit_plain: "isdigit c \<Longrightarrow> \<not> isspace c \<and> c \<noteq> CHR ''-'' \<and> c \<noteq> CHR ''+''"
  by (auto simp: isdigit_def isspace_def)

lemma show_nat_digits: "c \<in> set (show_nat n) \<Longrightarrow> isdigit c"
proof (induction n arbitrary: c rule: show_nat.induct)
  case (1 n)
  show ?case
  proof (cases "n < 10")
    case True
    with "1.prems" show ?thesis
      by (subst (asm) show_nat.simps) (simp add: isdigit_digit_char)
  next
    case False
    with "1.prems" "1.IH" show ?thesis
      by (subst (asm) show_nat.simps) (auto simp: isdigit_digit_char)
  qed
qed

lemma show_nat_nonempty: "show_nat n \<noteq> []"
  by (subst show_nat.simps) simp

lemma atoi_digits_append:
  "\<forall>c\<in>set xs. isdigit c \<Longrightarrow> atoi_digits acc (xs @ ys) = atoi_digits (atoi_digits acc xs) ys"
  by (induction xs arbitrary: acc) simp_all

lemma atoi_digits_show_nat:
  "atoi_digits acc (show_nat n) = acc * 10 ^ length (show_nat n) + int n"
proof (induction n arbitrary: acc rule: show_nat.induct)
  case (1 n)
  show ?case
  proof (cases "n < 10")
    case True
    then show ?thesis
      by (subst (1 2) show_nat.simps) (simp add: isdigit_digit_char digit_val_digit_char)
  next
    case False
    have d: "\<forall>c\<in>set (show_nat (n div 10)). isdigit c"
      by (simp add: show_nat_digits)
    have "atoi_digits acc (show_nat (n div 10) @ [digit_char (n mod 10)]) =
        (acc * 10 ^ length (show_nat (n div 10)) + int (n div 10)) * 10 + int (n mod 10)"
      using False "1.IH" [of acc]
      by (simp add: atoi_digits_append [OF d] isdigit_digit_char digit_val_digit_char)
    also have "\<dots> = acc * 10 ^ length (show_nat (n div 10) @ [digit_char (n mod 10)]) + int n"
    proof -
      have "int n = int (n div 10) * 10 + int (n mod 10)"
        by (simp add: zdiv_int zmod_int)
      then show ?thesis
        by (simp add: algebra_simps)
    qed
    finally show ?thesis
      using False by (subst (1 2) show_nat.simps) simp
  qed
qed

lemma atoi_digits_zeros: "atoi_digits 0 (replicate k (CHR ''0'') @ ys) = atoi_digits 0 ys"
  by (induction k) (simp_all add: isdigit_def digit_val_def)

lemma decimal_value_setw_show_int:
  assumes "0 \<le> v"
  shows "decimal_value (setw_setfill w (CHR ''0'') (show_int v)) = v"
proof -
  define s where "s = setw_setfill w (CHR ''0'') (show_int v)"
  have s: "s = replicate (w - length (show_nat (nat v))) (CHR ''0'') @ show_nat (nat v)"
    using assms by (simp add: s_def setw_setfill_def show_int_def)
  have z: "isdigit (CHR ''0'')"
    by (simp add: isdigit_def)
  have "s \<noteq> []" and "isdigit (hd s)"
    using show_nat_nonempty [of "nat v"] show_nat_digits [of "hd (show_nat (nat v))" "nat v"] z
    by (auto simp: s hd_append)
  then obtain c cs where c: "s = c # cs" "isdigit c"
    by (cases s) auto
  have "decimal_value s = atoi_digits 0 s"
    using isdigit_plain [OF c(2)] by (simp add: decimal_value_def c(1))
  also have "\<dots> = v"
    using assms by (simp add: s atoi_digits_zeros atoi_digits_show_nat)
  finally show ?thesis
    by (simp add: s_def)
qed

lemma length_show_nat: "n < 10 ^ k \<Longrightarrow> 0 < k \<Longrightarrow> length (show_nat n) \<le> k"
proof (induction n arbitrary: k rule: show_nat.induct)
  case (1 n)
  show ?case
  proof (cases "n < 10")
    case True
    with "1.prems" show ?thesis
      by (subst show_nat.simps) simp
  next
    case False
    obtain j where k: "k = Suc j"
      using "1.prems" by (cases k) auto
    from False "1.prems" have "0 < j"
      by (cases j) (auto simp: k)
    moreover from "1.prems" have "n div 10 < 10 ^ j"
      by (simp add: k less_mult_imp_div_less mult.commute)
    ultimately have "length (show_nat (n div 10)) \<le> j"
      using False "1.IH" by simp
    then show ?thesis
      using False by (subst show_nat.simps) (simp add: k)
  qed
qed

lemma length_setw_show_int:
  "0 \<le> v \<Longrightarrow> v < 10 ^ 10 \<Longrightarrow> length (setw_setfill 10 (CHR ''0'') (show_int v)) = 10"
  using length_show_nat [of "nat v" 10]
  by (simp add: setw_setfill_def show_int_def nat_less_iff)

subsection \<open>The cross-reference table\<close>

lemma xref_loop_eq:
  "0 \<le> i \<Longrightarrow>
   xref_loop offsets numObjects i =
     concat (map (\<lambda>k. setw_setfill 10 (CHR ''0'') (show_int (offsets ! k)) @ '' 00000 n \<newline>'')
       [nat i ..< nat (numObjects + 1)])"
proof (induction offsets numObjects i rule: xref_loop.induct)
  case (1 offsets numObjects i)
  show ?case
  proof (cases "i \<le> numObjects")
    case True
    from True "1.prems" have lt: "nat i < nat (numObjects + 1)" by simp
    from "1.prems" have s: "nat (i + 1) = Suc (nat i)" by simp
    have u: "[nat i ..< nat (numObjects + 1)] =
        nat i # [nat (i + 1) ..< nat (numObjects + 1)]"
      unfolding s using lt by (rule upt_conv_Cons)
    from True "1.prems" "1.IH" show ?thesis
      by (subst xref_loop.simps) (simp add: u)
  next
    case False
    with "1.prems" show ?thesis
      by (subst xref_loop.simps) simp
  qed
qed


lemma write_body_split:
  assumes "1 \<le> i" and "i \<le> 3 + 2 * length pgs"
  shows "fst (write_body F pgs) =
     (pdf_header @ concat (map (\<lambda>k. build_objects F pgs ! k) [1 ..< i])) @
     build_objects F pgs ! i @
     concat (map (\<lambda>k. build_objects F pgs ! k) [Suc i ..< 4 + 2 * length pgs])"
proof -
  from assms have "4 + 2 * length pgs = i + (4 + 2 * length pgs - i)" by simp
  then have "[1 ..< 4 + 2 * length pgs] = [1 ..< i] @ [i ..< 4 + 2 * length pgs]"
    using upt_add_eq_append [of 1 i "4 + 2 * length pgs - i"] assms(1) by simp
  also from assms have "[i ..< 4 + 2 * length pgs] = i # [Suc i ..< 4 + 2 * length pgs]"
    by (intro upt_conv_Cons) simp
  finally show ?thesis
    by (simp add: write_body_fst)
qed

lemma length_pdf_header: "length pdf_header = 15"
  by (simp add: pdf_header_def)

text \<open>
  C2. With at least one page, the file is the body (header, binary-marker comment and
  objects), then the cross-reference table with one entry per object, then the trailer.
  For every object number \<open>i\<close> from 1 to the number of objects, the entry of object \<open>i\<close> is
  the decimal text of \<open>offsets ! i\<close> padded with zeros to ten characters (exactly ten
  while the offset is below \<open>10^10\<close>), which reads back as that number; and that number is
  the index, counted from the first byte of the file, at which the serialization of
  object \<open>i\<close> begins with its marker \<open>i 0 obj\<close>. Object 1 begins at byte 15, right after
  the header and the comment.
\<close>

theorem xref_offsets:
  assumes "pgs \<noteq> []"
    and "objects = build_objects F pgs"
    and "body = fst (write_body F pgs)"
    and "offsets = snd (write_body F pgs)"
    and "numObjects = 3 + 2 * length pgs"
    and "pdf = assemble_pdf F pgs"
  shows "pdf =
       body @ ''xref\<newline>'' @ ''0 '' @ show_int (int numObjects + 1) @ ''\<newline>'' @
       ''0000000000 65535 f \<newline>'' @
       concat (map (\<lambda>i. setw_setfill 10 (CHR ''0'') (show_int (offsets ! i)) @ '' 00000 n \<newline>'')
         [1 ..< numObjects + 1]) @
       ''trailer\<newline>'' @ ''<< /Size '' @ show_int (int numObjects + 1) @ '' /Root 1 0 R >>\<newline>'' @
       ''startxref\<newline>'' @ show_int (int (length body)) @ ''\<newline>'' @ ''%%EOF\<newline>'' \<and>
     offsets ! 1 = 15 \<and>
     (\<forall>i\<in>{1..numObjects}.
        0 \<le> offsets ! i \<and> nat (offsets ! i) < length pdf \<and>
        decimal_value (setw_setfill 10 (CHR ''0'') (show_int (offsets ! i))) = offsets ! i \<and>
        (offsets ! i < 10 ^ 10 \<longrightarrow>
           length (setw_setfill 10 (CHR ''0'') (show_int (offsets ! i))) = 10) \<and>
        prefix (objects ! i) (drop (nat (offsets ! i)) pdf) \<and>
        prefix (show_int (int i) @ '' 0 obj\<newline>'') (drop (nat (offsets ! i)) pdf))"
proof -
  have n: "int (length (build_objects F pgs)) - 1 = int numObjects"
    by (simp add: length_build_objects assms(5))
  have n1: "nat (int numObjects + 1) = numObjects + 1"
    by simp
  have 1: "pdf =
       body @ ''xref\<newline>'' @ ''0 '' @ show_int (int numObjects + 1) @ ''\<newline>'' @
       ''0000000000 65535 f \<newline>'' @
       concat (map (\<lambda>i. setw_setfill 10 (CHR ''0'') (show_int (offsets ! i)) @ '' 00000 n \<newline>'')
         [1 ..< numObjects + 1]) @
       ''trailer\<newline>'' @ ''<< /Size '' @ show_int (int numObjects + 1) @ '' /Root 1 0 R >>\<newline>'' @
       ''startxref\<newline>'' @ show_int (int (length body)) @ ''\<newline>'' @ ''%%EOF\<newline>''"
    unfolding assms(6) assemble_pdf_def Let_def n assms(3,4) [symmetric]
    by (simp add: xref_loop_eq n1 del: nat_int_add)
  have 2: "offsets ! 1 = 15"
    using write_body_offset [of 1 pgs F] by (simp add: assms(4) length_pdf_header)
  have 3: "0 \<le> offsets ! i \<and> nat (offsets ! i) < length pdf \<and>
        decimal_value (setw_setfill 10 (CHR ''0'') (show_int (offsets ! i))) = offsets ! i \<and>
        (offsets ! i < 10 ^ 10 \<longrightarrow>
           length (setw_setfill 10 (CHR ''0'') (show_int (offsets ! i))) = 10) \<and>
        prefix (objects ! i) (drop (nat (offsets ! i)) pdf) \<and>
        prefix (show_int (int i) @ '' 0 obj\<newline>'') (drop (nat (offsets ! i)) pdf)"
    if "i \<in> {1..numObjects}" for i
  proof -
    from that have i: "1 \<le> i" "i \<le> 3 + 2 * length pgs"
      by (simp_all add: assms(5))
    define before where
      "before = pdf_header @ concat (map (\<lambda>k. build_objects F pgs ! k) [1 ..< i])"
    have off: "offsets ! i = int (length before)"
      by (simp add: assms(4) write_body_offset [OF i] before_def)
    obtain rest where split: "pdf = before @ objects ! i @ rest"
      using 1 write_body_split [OF i, of F]
      by (simp add: assms(2,3) before_def)
    have marker: "prefix (show_int (int i) @ '' 0 obj\<newline>'') (objects ! i)"
      unfolding assms(2) using i by (rule build_objects_numbered)
    then have "objects ! i \<noteq> []"
      by auto
    then have a: "nat (offsets ! i) < length pdf"
      by (simp add: off split)
    have b: "prefix (objects ! i) (drop (nat (offsets ! i)) pdf)"
      by (simp add: off split)
    from marker b have c: "prefix (show_int (int i) @ '' 0 obj\<newline>'') (drop (nat (offsets ! i)) pdf)"
      by (rule prefix_order.trans)
    have d: "0 \<le> offsets ! i"
      by (simp add: off)
    from a b c d decimal_value_setw_show_int [OF d, of 10] length_setw_show_int [OF d]
    show ?thesis by blast
  qed
  from 1 2 3 show ?thesis by blast
qed


theorem xref_offsets_witness:
  "snd (write_body exact_float [\<lparr>lines = []\<rparr>]) ! 1 = 15 \<and>
   setw_setfill 10 (CHR ''0'') (show_int 15) = ''0000000015'' \<and>
   decimal_value ''0000000015'' = 15 \<and>
   prefix ''1 0 obj\<newline>'' (drop 15 (assemble_pdf exact_float [\<lparr>lines = []\<rparr>]))"
proof -
  have n: "(5::nat) = 3 + 2 * length [\<lparr>lines = []\<rparr> :: rat PageSpec]"
    by simp
  note t = xref_offsets [of "[\<lparr>lines = []\<rparr>]" _ exact_float _ _ 5, OF _ refl refl refl n refl]
  have o: "snd (write_body exact_float [\<lparr>lines = []\<rparr>]) ! 1 = 15"
    using t by blast
  have "(1::nat) \<in> {1..5}"
    by simp
  with t have
    "decimal_value (setw_setfill 10 (CHR ''0'')
        (show_int (snd (write_body exact_float [\<lparr>lines = []\<rparr>]) ! 1))) =
      snd (write_body exact_float [\<lparr>lines = []\<rparr>]) ! 1 \<and>
     prefix (show_int (int 1) @ '' 0 obj\<newline>'')
      (drop (nat (snd (write_body exact_float [\<lparr>lines = []\<rparr>]) ! 1))
        (assemble_pdf exact_float [\<lparr>lines = []\<rparr>]))"
    by blast
  then have a: "decimal_value (setw_setfill 10 (CHR ''0'') (show_int 15)) = 15 \<and>
     prefix (show_int (int 1) @ '' 0 obj\<newline>'')
       (drop (nat 15) (assemble_pdf exact_float [\<lparr>lines = []\<rparr>]))"
    unfolding o .
  have p: "setw_setfill 10 (CHR ''0'') (show_int 15) = ''0000000015''"
    by code_simp
  from a o show ?thesis
    unfolding p by (simp add: show_int_1)
qed

subsection \<open>The example, assembled\<close>

text \<open>
  The objects, the offsets and the whole file that the converter builds for the layout of
  the specification's example, evaluated from the definitions.
\<close>

lemma hello_objects:
  "build_objects exact_float [hello_page] =
     [[],
      ''1 0 obj\<newline><< /Type /Catalog /Pages 2 0 R >>\<newline>endobj\<newline>'',
      ''2 0 obj\<newline><< /Type /Pages /Kids [ 4 0 R ] /Count 1 >>\<newline>endobj\<newline>'',
      ''3 0 obj\<newline><< /Type /Font /Subtype /Type1 /BaseFont /Helvetica >>\<newline>endobj\<newline>'',
      ''4 0 obj\<newline><< /Type /Page\<newline>   /Parent 2 0 R\<newline>   /MediaBox [0 0 612 792]\<newline>   /Resources << /Font << /F1 3 0 R >> >>\<newline>   /Contents 5 0 R\<newline>>>\<newline>endobj\<newline>'',
      ''5 0 obj\<newline><< /Length 57 >>\<newline>stream\<newline>BT\<newline>/F1 14 Tf\<newline>1 0 0 rg\<newline>1 0 0 1 288.5 750 Tm\<newline>(Hello) Tj\<newline>ET\<newline>\<newline>endstream\<newline>endobj\<newline>'']"
  by (simp add: build_objects_eq catalog_object_def pages_object_def kids_loop_eq
      font_object_def page_object_def content_object_def hello_content to_int_def
      show_int_examples show_int_1)


lemma upt_examples:
  "[Suc 0 ..< Suc 0] = []" "[Suc 0 ..< 2] = [Suc 0]" "[Suc 0 ..< 3] = [Suc 0, 2]"
  "[Suc 0 ..< 4] = [Suc 0, 2, 3]" "[Suc 0 ..< 5] = [Suc 0, 2, 3, 4]"
  "[Suc 0 ..< 6] = [Suc 0, 2, 3, 4, 5]"
  by (simp_all add: upt_conv_Cons)

lemma setw_examples:
  "setw_setfill 10 (CHR ''0'') (show_int 15) = ''0000000015''"
  "setw_setfill 10 (CHR ''0'') (show_int 64) = ''0000000064''"
  "setw_setfill 10 (CHR ''0'') (show_int 123) = ''0000000123''"
  "setw_setfill 10 (CHR ''0'') (show_int 193) = ''0000000193''"
  "setw_setfill 10 (CHR ''0'') (show_int 331) = ''0000000331''"
  by code_simp+

lemma hello_offsets:
  "snd (write_body exact_float [hello_page]) ! Suc 0 = 15"
  "snd (write_body exact_float [hello_page]) ! 2 = 64"
  "snd (write_body exact_float [hello_page]) ! 3 = 123"
  "snd (write_body exact_float [hello_page]) ! 4 = 193"
  "snd (write_body exact_float [hello_page]) ! 5 = 331"
  using write_body_offset [of 1 "[hello_page]" exact_float]
    write_body_offset [of 2 "[hello_page]" exact_float]
    write_body_offset [of 3 "[hello_page]" exact_float]
    write_body_offset [of 4 "[hello_page]" exact_float]
    write_body_offset [of 5 "[hello_page]" exact_float]
  by (simp_all add: hello_objects length_pdf_header upt_examples)

lemma hello_body:
  "fst (write_body exact_float [hello_page]) =
     pdf_header @ concat (tl (build_objects exact_float [hello_page]))"
  by (simp add: write_body_fst hello_objects upt_examples)

lemma hello_body_length: "length (fst (write_body exact_float [hello_page])) = 438"
  by (simp add: hello_body hello_objects length_pdf_header)

lemma hello_pdf: "assemble_pdf exact_float [hello_page] = hello_pdf_bytes"
proof -
  have x: "xref_loop (snd (write_body exact_float [hello_page])) 5 1 =
      ''0000000015 00000 n \<newline>'' @ ''0000000064 00000 n \<newline>'' @
      ''0000000123 00000 n \<newline>'' @ ''0000000193 00000 n \<newline>'' @
      ''0000000331 00000 n \<newline>''"
    by (simp add: xref_loop_eq upt_examples hello_offsets setw_examples)
  have n: "int (length (build_objects exact_float [hello_page])) - 1 = 5"
    by (simp add: length_build_objects)
  show ?thesis
    unfolding assemble_pdf_def Let_def n hello_body_length x
    by (simp add: hello_body hello_objects pdf_header_def show_int_examples
        hello_pdf_bytes_def)
qed

section \<open>The program\<close>

text \<open>The file starts with the header and ends with the end-of-file marker.\<close>

lemma assemble_pdf_frame:
  "prefix ''%PDF-1.4\<newline>'' (assemble_pdf F pgs) \<and> suffix ''%%EOF\<newline>'' (assemble_pdf F pgs)"
proof -
  have "prefix ''%PDF-1.4\<newline>'' (assemble_pdf F pgs)"
    by (simp add: assemble_pdf_def Let_def write_body_fst pdf_header_def)
  moreover have "suffix ''%%EOF\<newline>'' (assemble_pdf F pgs)"
    unfolding assemble_pdf_def Let_def
    by (simp only: append_assoc [symmetric] suffix_def) blast
  ultimately show ?thesis ..
qed

text \<open>The runs of \<^verbatim>\<open>main\<close>, by the tests it makes in their order.\<close>

lemma main_cases:
  "main F w =
     (if length (argv w) < 2 then
        \<lparr>exit_code = 1, cout = [], cerr = ''Usage: layout2pdf <filename>\<newline>'', written = None\<rparr>
      else case readable w (argv w ! 1 @ ''.txt'') of
        None \<Rightarrow>
          \<lparr>exit_code = 1, cout = [],
           cerr = ''Failed to open layout file: '' @ argv w ! 1 @ ''.txt'' @ ''\<newline>'',
           written = None\<rparr>
      | Some contents \<Rightarrow>
          (let pgs = parse_lines F (initial_state F []) (getlines [] contents) in
           if pgs = [] then
             \<lparr>exit_code = 1, cout = [], cerr = ''No pages parsed from layout file.\<newline>'',
              written = None\<rparr>
           else if \<not> writable w (argv w ! 1 @ ''.pdf'') then
             \<lparr>exit_code = 1, cout = [],
              cerr = ''Failed to open output PDF: '' @ argv w ! 1 @ ''.pdf'' @ ''\<newline>'',
              written = None\<rparr>
           else
             \<lparr>exit_code = 0,
              cout = ''Saved to '' @ [CHR 0x27] @ argv w ! 1 @ ''.pdf'' @ [CHR 0x27] @ ''\<newline>'',
              cerr = [],
              written = Some (argv w ! 1 @ ''.pdf'',
                storage w (argv w ! 1 @ ''.pdf'') (assemble_pdf F pgs))\<rparr>))"
  by (simp add: main_def ParseLayoutFile_def Let_def split: option.split)

text \<open>The runs on the sound disk, under another name, and on the full disk.\<close>

lemma hello_pdf_nonempty: "hello_pdf_bytes \<noteq> []"
  by (simp add: hello_pdf_bytes_def)

lemma main_doc_world:
  "main exact_float doc_world =
     \<lparr>exit_code = 0,
      cout = ''Saved to '' @ [CHR 0x27] @ ''doc.pdf'' @ [CHR 0x27] @ ''\<newline>'',
      cerr = [], written = Some (''doc.pdf'', hello_pdf_bytes)\<rparr>"
  by (simp add: main_cases doc_world_def hello_parse_lines hello_pdf del: parse_lines.simps)

lemma main_copy_world:
  "main exact_float copy_world =
     \<lparr>exit_code = 0,
      cout = ''Saved to '' @ [CHR 0x27] @ ''copy.pdf'' @ [CHR 0x27] @ ''\<newline>'',
      cerr = [], written = Some (''copy.pdf'', hello_pdf_bytes)\<rparr>"
  by (simp add: main_cases copy_world_def hello_parse_lines hello_pdf del: parse_lines.simps)

lemma main_full_disk_world:
  "main exact_float full_disk_world =
     \<lparr>exit_code = 0,
      cout = ''Saved to '' @ [CHR 0x27] @ ''doc.pdf'' @ [CHR 0x27] @ ''\<newline>'',
      cerr = [], written = Some (''doc.pdf'', [])\<rparr>"
  by (simp add: main_cases full_disk_world_def doc_world_def hello_parse_lines hello_pdf
      del: parse_lines.simps)

text \<open>
  C8. The program exits with code 1 exactly when no argument is given, or the input file
  cannot be opened, or the parser yields no page, or the output file cannot be opened for
  writing; it then has written nothing and printed no confirmation. In every other case
  it exits with code 0, prints the confirmation, and has handed the full PDF byte stream
  of the parsed pages, from \<open>%PDF-1.4\<close> to \<open>%%EOF\<close>, to the output file in one write,
  whose result it does not test: the file holds this byte stream whenever the write
  succeeds.
\<close>

theorem exit_codes:
  assumes "layoutFile = argv w ! 1 @ ''.txt''" and "outputFile = argv w ! 1 @ ''.pdf''"
  shows "(exit_code (main F w) = 1 \<longleftrightarrow>
            length (argv w) < 2 \<or>
            readable w layoutFile = None \<or>
            (\<exists>contents. readable w layoutFile = Some contents \<and>
               parse_lines F (initial_state F []) (getlines [] contents) = []) \<or>
            \<not> writable w outputFile) \<and>
         (exit_code (main F w) = 1 \<longrightarrow> written (main F w) = None \<and> cout (main F w) = []) \<and>
         (exit_code (main F w) \<noteq> 1 \<longrightarrow>
            exit_code (main F w) = 0 \<and>
            cout (main F w) = ''Saved to '' @ [CHR 0x27] @ outputFile @ [CHR 0x27] @ ''\<newline>'' \<and>
            (\<exists>contents pdf. readable w layoutFile = Some contents \<and>
               pdf = assemble_pdf F (parse_lines F (initial_state F []) (getlines [] contents)) \<and>
               prefix ''%PDF-1.4\<newline>'' pdf \<and> suffix ''%%EOF\<newline>'' pdf \<and>
               written (main F w) = Some (outputFile, storage w outputFile pdf) \<and>
               (storage w outputFile pdf = pdf \<longrightarrow>
                  written (main F w) = Some (outputFile, pdf))))"
  unfolding assms main_cases
  by (cases "readable w (argv w ! 1 @ ''.txt'')") (simp_all add: Let_def assemble_pdf_frame)

theorem exit_codes_witness:
  "exit_code (main exact_float doc_world) = 0 \<and>
   cout (main exact_float doc_world) = ''Saved to '' @ [CHR 0x27] @ ''doc.pdf'' @ [CHR 0x27] @ ''\<newline>'' \<and>
   written (main exact_float doc_world) = Some (''doc.pdf'', hello_pdf_bytes) \<and>
   exit_code (main exact_float empty_file_world) = 1 \<and>
   written (main exact_float empty_file_world) = None \<and>
   exit_code (main exact_float no_argument_world) = 1 \<and>
   exit_code (main exact_float (doc_world\<lparr>readable := (\<lambda>n. None)\<rparr>)) = 1 \<and>
   exit_code (main exact_float (doc_world\<lparr>writable := (\<lambda>n. False)\<rparr>)) = 1"
proof -
  have a: "exit_code (main exact_float doc_world) = 0 \<and>
      cout (main exact_float doc_world) = ''Saved to '' @ [CHR 0x27] @ ''doc.pdf'' @ [CHR 0x27] @ ''\<newline>'' \<and>
      written (main exact_float doc_world) = Some (''doc.pdf'', hello_pdf_bytes)"
    using exit_codes [of _ doc_world _ exact_float, OF refl refl]
    by (simp add: doc_world_def hello_parse_lines hello_pdf del: parse_lines.simps)
  have b: "exit_code (main exact_float empty_file_world) = 1 \<and>
      written (main exact_float empty_file_world) = None"
    using exit_codes [of _ empty_file_world _ exact_float, OF refl refl]
    by (simp add: empty_file_world_def doc_world_def initial_state_def)
  have c: "exit_code (main exact_float no_argument_world) = 1"
    using exit_codes [of _ no_argument_world _ exact_float, OF refl refl]
    by (simp add: no_argument_world_def doc_world_def)
  have d: "exit_code (main exact_float (doc_world\<lparr>readable := (\<lambda>n. None)\<rparr>)) = 1"
    using exit_codes [of _ "doc_world\<lparr>readable := (\<lambda>n. None)\<rparr>" _ exact_float, OF refl refl]
    by (simp add: doc_world_def)
  have e: "exit_code (main exact_float (doc_world\<lparr>writable := (\<lambda>n. False)\<rparr>)) = 1"
    using exit_codes [of _ "doc_world\<lparr>writable := (\<lambda>n. False)\<rparr>" _ exact_float, OF refl refl]
    by (simp add: doc_world_def)
  from a b c d e show ?thesis
    by blast
qed

text \<open>
  The specification's sentence, that in every other case the program writes the full PDF
  byte stream, fails where the write itself fails: on the full disk the arguments are
  there, the input is read, a page is parsed and the output file opens, the program exits
  with code 0 and prints the confirmation, and the output file is empty.
\<close>

theorem exit_codes_counterexample:
  "length (argv full_disk_world) = 2 \<and>
   readable full_disk_world ''doc.txt'' = Some hello_layout \<and>
   parse_lines exact_float (initial_state exact_float []) (getlines [] hello_layout) =
     [hello_page] \<and>
   writable full_disk_world ''doc.pdf'' \<and>
   exit_code (main exact_float full_disk_world) = 0 \<and>
   cout (main exact_float full_disk_world) =
     ''Saved to '' @ [CHR 0x27] @ ''doc.pdf'' @ [CHR 0x27] @ ''\<newline>'' \<and>
   written (main exact_float full_disk_world) = Some (''doc.pdf'', []) \<and>
   assemble_pdf exact_float [hello_page] \<noteq> []"
  by (simp add: main_full_disk_world hello_parse_lines hello_pdf hello_pdf_nonempty
      del: parse_lines.simps)
    (simp add: full_disk_world_def doc_world_def)

text \<open>
  C9. The PDF byte stream that the converter hands to the output file is a function of the
  contents of the input file alone: two runs that read the same bytes, whatever their
  arguments, file names, clock, random state and environment variables, end with the same
  exit code when both can open their output file, and then hand the same byte stream, a
  full PDF, to their output files; the two files are byte-identical whenever both writes
  succeed. When the input yields no page, neither run writes a file.
\<close>

theorem output_determined_by_contents:
  assumes "2 \<le> length (argv w1)" and "2 \<le> length (argv w2)"
    and "readable w1 (argv w1 ! 1 @ ''.txt'') = Some contents"
    and "readable w2 (argv w2 ! 1 @ ''.txt'') = Some contents"
    and "pgs = parse_lines F (initial_state F []) (getlines [] contents)"
    and "pdf = assemble_pdf F pgs"
    and "out1 = argv w1 ! 1 @ ''.pdf''" and "out2 = argv w2 ! 1 @ ''.pdf''"
  shows "(pgs \<noteq> [] \<and> writable w1 out1 \<and> writable w2 out2 \<longrightarrow>
            exit_code (main F w1) = 0 \<and> exit_code (main F w2) = 0 \<and>
            written (main F w1) = Some (out1, storage w1 out1 pdf) \<and>
            written (main F w2) = Some (out2, storage w2 out2 pdf) \<and>
            prefix ''%PDF-1.4\<newline>'' pdf \<and> suffix ''%%EOF\<newline>'' pdf) \<and>
         (pgs \<noteq> [] \<and> writable w1 out1 \<and> writable w2 out2 \<and>
          storage w1 out1 pdf = pdf \<and> storage w2 out2 pdf = pdf \<longrightarrow>
            map_option snd (written (main F w1)) = Some pdf \<and>
            map_option snd (written (main F w2)) = Some pdf) \<and>
         (writable w1 out1 \<and> writable w2 out2 \<longrightarrow>
            exit_code (main F w1) = exit_code (main F w2)) \<and>
         (pgs = [] \<longrightarrow> written (main F w1) = None \<and> written (main F w2) = None)"
  using assms(1-4) unfolding assms(5-8) main_cases
  by (simp add: Let_def assemble_pdf_frame)

theorem output_determined_by_contents_witness:
  "exit_code (main exact_float doc_world) = 0 \<and>
   exit_code (main exact_float copy_world) = 0 \<and>
   written (main exact_float doc_world) = Some (''doc.pdf'', hello_pdf_bytes) \<and>
   written (main exact_float copy_world) = Some (''copy.pdf'', hello_pdf_bytes) \<and>
   clock doc_world \<noteq> clock copy_world \<and> random doc_world \<noteq> random copy_world \<and>
   environ doc_world ''LANG'' \<noteq> environ copy_world ''LANG'' \<and>
   argv doc_world \<noteq> argv copy_world"
proof -
  have a: "2 \<le> length (argv doc_world)" and b: "2 \<le> length (argv copy_world)"
    by (simp_all add: doc_world_def copy_world_def)
  have c: "readable doc_world (argv doc_world ! 1 @ ''.txt'') = Some hello_layout"
    by (simp add: doc_world_def)
  have d: "readable copy_world (argv copy_world ! 1 @ ''.txt'') = Some hello_layout"
    by (simp add: copy_world_def)
  have e: "argv doc_world ! 1 @ ''.pdf'' = ''doc.pdf''"
    "argv copy_world ! 1 @ ''.pdf'' = ''copy.pdf''"
    "writable doc_world ''doc.pdf''" "writable copy_world ''copy.pdf''"
    "storage doc_world ''doc.pdf'' hello_pdf_bytes = hello_pdf_bytes"
    "storage copy_world ''copy.pdf'' hello_pdf_bytes = hello_pdf_bytes"
    by (simp_all add: doc_world_def copy_world_def)
  have f: "clock doc_world \<noteq> clock copy_world \<and> random doc_world \<noteq> random copy_world \<and>
      environ doc_world ''LANG'' \<noteq> environ copy_world ''LANG'' \<and>
      argv doc_world \<noteq> argv copy_world"
    by (simp add: doc_world_def copy_world_def)
  from output_determined_by_contents [OF a b c d hello_parse_lines [symmetric]
      hello_pdf [symmetric] refl refl] e f
  show ?thesis
    by simp
qed

text \<open>
  Without the condition on the writes the two output files can differ: the same layout
  under the same name, read by the same command, leaves the full PDF on the sound disk
  and an empty file on the full disk.
\<close>

theorem output_determined_by_contents_counterexample:
  "argv doc_world = argv full_disk_world \<and>
   readable doc_world ''doc.txt'' = Some hello_layout \<and>
   readable full_disk_world ''doc.txt'' = Some hello_layout \<and>
   written (main exact_float doc_world) = Some (''doc.pdf'', hello_pdf_bytes) \<and>
   written (main exact_float full_disk_world) = Some (''doc.pdf'', []) \<and>
   written (main exact_float doc_world) \<noteq> written (main exact_float full_disk_world)"
  by (simp add: main_doc_world main_full_disk_world hello_pdf_nonempty)
    (simp add: full_disk_world_def doc_world_def)

end
